theory Spec2Isabelle
  imports Main "HOL-Library.Multiset"
begin

section \<open>Data model\<close>

text \<open>
  \<^verbatim>\<open>src/server.js\<close> holds two implementations of the same service. Variant A is the
  ES-module server (lines 1 to 151), variant B the CommonJS server (lines 152 to 360).
  Both keep three Mongoose collections: users, drawers and notes.

  An ObjectId is modelled as a natural number. The generator of ObjectIds is one
  process-wide counter shared by all collections, so the store carries \<open>next_oid\<close>,
  the next identifier any \<open>new Model(...)\<close> or \<open>Model.create(...)\<close> receives.
  A collection is the list of its documents in insertion order.

  Points in time (\<open>new Date()\<close>, \<open>Date.now\<close>) are natural numbers, in milliseconds;
  each request is handed the clock reading \<open>now\<close> it would observe.

  The \<open>password\<close> of a request body is any JSON value, or \<open>undefined\<close> when the body
  has no such field: the handlers pass it to \<open>bcrypt\<close>, which accepts strings only.
  The other fields of a body (\<open>email\<close>, \<open>username\<close>, \<open>drawerName\<close>, \<open>title\<close>,
  \<open>content\<close>) are taken to be strings or absent, as \<open>string option\<close>. A stored
  \<open>title\<close> or \<open>content\<close> is \<open>string option\<close> as well, \<open>None\<close> being a document
  without the field (or with \<open>null\<close> in it).
\<close>

type_synonym oid = nat

datatype owner_type = UserT | DrawerT

text \<open>The payload of a token, \<open>{ type, id }\<close>, which the auth middleware stores in
  \<open>req.user\<close> once \<open>jwt.verify\<close> has accepted the token.\<close>

record principal =
  ptype :: owner_type
  pid :: oid

text \<open>A token is what \<open>jwt.sign\<close> makes of a payload: the payload, the secret the
  signature was made with, and the second at which it expires. Whoever knows the secret
  can make a token of any payload.\<close>

record token =
  payload :: principal
  signed_with :: string
  expires :: int

text \<open>A value of a JSON body, or \<open>undefined\<close>. \<open>JNum\<close> is a number (its being zero
  is all that matters here), \<open>JCompound\<close> an array or an object.\<close>

datatype jsval = JUndefined | JNull | JBool bool | JNum int | JStr string | JCompound

record user_doc =
  user_id :: oid
  email :: string
  username :: "string option"
  passwordHash :: string

record drawer_doc =
  drawer_id :: oid
  drawerName :: string
  drawerPasswordHash :: string

record note_doc =
  note_id :: oid
  ownerType :: owner_type
  ownerId :: oid
  title :: "string option"
  content :: "string option"
  createdAt :: nat
  updatedAt :: "nat option"

record db =
  Users :: "user_doc list"
  Drawers :: "drawer_doc list"
  Notes :: "note_doc list"
  next_oid :: oid

definition init_db :: db where
  "init_db = \<lparr>Users = [], Drawers = [], Notes = [], next_oid = 0\<rparr>"

text \<open>
  The configuration and what the libraries contribute are parameters of the model:
  \<^item> \<open>JWT_SECRET\<close> is the signing secret (\<open>process.env.JWT_SECRET\<close>, or the constant
    the source falls back to);
  \<^item> \<open>bcrypt_hash\<close> is \<open>bcrypt.hash(password, 10)\<close> on a string;
  \<^item> \<open>bcrypt_matches\<close> is the result of \<open>bcrypt.compare\<close> on a string and a hash;
  \<^item> \<open>undefined_filter_any\<close> tells whether a query filter whose value is
    \<open>undefined\<close> is dropped, so that \<open>findOne({ email: undefined })\<close> is
    \<open>findOne({})\<close>, or is sent as \<open>null\<close> and matches no stored document;
  \<^item> \<open>omit_undefined\<close> tells whether an update document drops the keys whose value
    is \<open>undefined\<close> or sets them to \<open>null\<close>.
  The last two differ between Mongoose versions; the theorems below hold for either value.
\<close>

record env =
  JWT_SECRET :: string
  bcrypt_hash :: "string \<Rightarrow> string"
  bcrypt_matches :: "string \<Rightarrow> string \<Rightarrow> bool"
  undefined_filter_any :: bool
  omit_undefined :: bool

text \<open>The bodies \<open>res.json(...)\<close> sends.\<close>

datatype json =
    Error string                              \<comment> \<open>\<open>{ error: msg }\<close>\<close>
  | SuccessToken token                        \<comment> \<open>\<open>{ success: true, token }\<close>\<close>
  | TokenOnly token                           \<comment> \<open>\<open>{ token }\<close>\<close>
  | TokenUser token oid string "string option"  \<comment> \<open>\<open>{ token, user: { id, email, username } }\<close>\<close>
  | TokenDrawer token oid string              \<comment> \<open>\<open>{ token, drawer: { id, drawerName } }\<close>\<close>
  | NoteList "note_doc list"
  | NoteDoc note_doc
  | Null
  | Success                                   \<comment> \<open>\<open>{ success: true }\<close>\<close>

text \<open>A handler either replies with a status and a body, or its promise is rejected
  with nobody catching it: variant A's handlers have no \<open>try\<close>.\<close>

datatype response = Reply nat json | Unhandled

section \<open>Library operations\<close>

text \<open>JavaScript's \<open>!v\<close>.\<close>

fun falsy :: "jsval \<Rightarrow> bool" where
  "falsy JUndefined = True"
| "falsy JNull = True"
| "falsy (JBool b) = (\<not> b)"
| "falsy (JNum n) = (n = 0)"
| "falsy (JStr s) = (s = [])"
| "falsy JCompound = False"

text \<open>\<open>v || ""\<close> in variant A and the destructuring default \<open>{ v = '' }\<close> in variant B
  agree on strings and \<open>undefined\<close>.\<close>

definition or_empty :: "string option \<Rightarrow> string" where
  "or_empty v = (case v of None \<Rightarrow> [] | Some s \<Rightarrow> s)"

text \<open>\<open>Model.findOne({ field: v })\<close>, where \<open>v\<close> may be \<open>undefined\<close>.\<close>

definition findOne :: "env \<Rightarrow> ('a \<Rightarrow> string) \<Rightarrow> string option \<Rightarrow> 'a list \<Rightarrow> 'a option" where
  "findOne E field v xs =
     (case v of
        Some s \<Rightarrow> find (\<lambda>x. field x = s) xs
      | None \<Rightarrow> if undefined_filter_any E then find (\<lambda>x. True) xs else None)"

text \<open>\<open>bcrypt.hash(data, 10)\<close> and \<open>bcrypt.compare(data, hash)\<close> reject when \<open>data\<close>
  is not a string (\<open>data and hash arguments required\<close> for \<open>undefined\<close> and \<open>null\<close>,
  \<open>data and hash must be strings\<close> otherwise); \<open>None\<close> is that rejection.\<close>

definition bcrypt_hash_data :: "env \<Rightarrow> jsval \<Rightarrow> string option" where
  "bcrypt_hash_data E data = (case data of JStr d \<Rightarrow> Some (bcrypt_hash E d) | _ \<Rightarrow> None)"

definition bcrypt_compare :: "env \<Rightarrow> jsval \<Rightarrow> string \<Rightarrow> bool option" where
  "bcrypt_compare E data h =
     (case data of JStr d \<Rightarrow> Some (bcrypt_matches E d h) | _ \<Rightarrow> None)"

text \<open>\<open>jwt.sign(payload, secret, { expiresIn: '7d' })\<close> at the clock reading \<open>now\<close>:
  the token expires seven days after the second of its issue.\<close>

definition jwt_sign :: "string \<Rightarrow> nat \<Rightarrow> principal \<Rightarrow> token" where
  "jwt_sign secret now p = \<lparr>payload = p, signed_with = secret, expires = int now div 1000 + 604800\<rparr>"

text \<open>\<open>jwt.verify(token, secret)\<close> returns the payload when the signature was made with
  \<open>secret\<close> and the token has not expired, and throws otherwise (\<open>None\<close>). It does not
  look at the store.\<close>

definition jwt_verify :: "string \<Rightarrow> nat \<Rightarrow> token \<Rightarrow> principal option" where
  "jwt_verify secret now t =
     (if signed_with t = secret \<and> int now div 1000 < expires t then Some (payload t) else None)"

text \<open>\<open>Note.findOneAndUpdate(filter, update, { new: true })\<close>: the first matching
  document is updated and returned as updated; \<open>null\<close> when none matches.\<close>

fun findOneAndUpdate :: "(note_doc \<Rightarrow> bool) \<Rightarrow> (note_doc \<Rightarrow> note_doc) \<Rightarrow> note_doc list \<Rightarrow> note_doc option \<times> note_doc list" where
  "findOneAndUpdate P f [] = (None, [])"
| "findOneAndUpdate P f (n # ns) =
     (if P n then (Some (f n), f n # ns)
      else (case findOneAndUpdate P f ns of (r, ns') \<Rightarrow> (r, n # ns')))"

text \<open>\<open>Note.deleteOne(filter)\<close>: the first matching document is removed.\<close>

fun deleteOne :: "(note_doc \<Rightarrow> bool) \<Rightarrow> note_doc list \<Rightarrow> note_doc list" where
  "deleteOne P [] = []"
| "deleteOne P (n # ns) = (if P n then ns else n # deleteOne P ns)"

text \<open>\<open>Note.findById(id)\<close>.\<close>

definition findById :: "oid \<Rightarrow> note_doc list \<Rightarrow> note_doc option" where
  "findById k ns = find (\<lambda>n. note_id n = k) ns"

text \<open>\<open>note.save()\<close> on a loaded document: the stored document with its \<open>_id\<close> is
  replaced.\<close>

fun save :: "note_doc \<Rightarrow> note_doc list \<Rightarrow> note_doc list" where
  "save n' [] = []"
| "save n' (n # ns) = (if note_id n = note_id n' then n' # ns else n # save n' ns)"

text \<open>\<open>.sort({ createdAt: -1 })\<close>.\<close>

definition sort_createdAt_desc :: "note_doc list \<Rightarrow> note_doc list" where
  "sort_createdAt_desc ns = sort_key (\<lambda>n. - int (createdAt n)) ns"

text \<open>A key of an update document whose value may be \<open>undefined\<close>.\<close>

definition set_field :: "env \<Rightarrow> string option \<Rightarrow> string option \<Rightarrow> string option" where
  "set_field E new old =
     (case new of Some v \<Rightarrow> Some v | None \<Rightarrow> if omit_undefined E then old else None)"

section \<open>Variant A\<close>

definition register_A :: "env \<Rightarrow> nat \<Rightarrow> string option \<Rightarrow> jsval \<Rightarrow> db \<Rightarrow> response \<times> db" where
  "register_A E now email' password s =
     (case email' of
        None \<Rightarrow> (Reply 400 (Error ''Email and password required''), s)
      | Some e \<Rightarrow>
          if e = [] \<or> falsy password then (Reply 400 (Error ''Email and password required''), s)
          else (case find (\<lambda>u. email u = e) (Users s) of
                  Some exists \<Rightarrow> (Reply 400 (Error ''User already exists''), s)
                | None \<Rightarrow>
                    (case bcrypt_hash_data E password of
                       None \<Rightarrow> (Unhandled, s)
                     | Some h \<Rightarrow>
                         let newUser = \<lparr>user_id = next_oid s, email = e, username = None,
                                        passwordHash = h\<rparr>
                         in (Reply 200 (SuccessToken (jwt_sign (JWT_SECRET E) now
                                          \<lparr>ptype = UserT, pid = user_id newUser\<rparr>)),
                             s\<lparr>Users := Users s @ [newUser], next_oid := Suc (next_oid s)\<rparr>))))"

definition create_drawer_A :: "env \<Rightarrow> nat \<Rightarrow> string option \<Rightarrow> jsval \<Rightarrow> db \<Rightarrow> response \<times> db" where
  "create_drawer_A E now drawerName' password s =
     (case drawerName' of
        None \<Rightarrow> (Reply 400 (Error ''Drawer name and password required''), s)
      | Some d \<Rightarrow>
          if d = [] \<or> falsy password
          then (Reply 400 (Error ''Drawer name and password required''), s)
          else (case find (\<lambda>x. drawerName x = d) (Drawers s) of
                  Some exists \<Rightarrow> (Reply 400 (Error ''Drawer already exists''), s)
                | None \<Rightarrow>
                    (case bcrypt_hash_data E password of
                       None \<Rightarrow> (Unhandled, s)
                     | Some h \<Rightarrow>
                         let newDrawer = \<lparr>drawer_id = next_oid s, drawerName = d,
                                          drawerPasswordHash = h\<rparr>
                         in (Reply 200 (SuccessToken (jwt_sign (JWT_SECRET E) now
                                          \<lparr>ptype = DrawerT, pid = drawer_id newDrawer\<rparr>)),
                             s\<lparr>Drawers := Drawers s @ [newDrawer], next_oid := Suc (next_oid s)\<rparr>))))"

definition login_A :: "env \<Rightarrow> nat \<Rightarrow> string option \<Rightarrow> jsval \<Rightarrow> db \<Rightarrow> response \<times> db" where
  "login_A E now email' password s =
     (case findOne E email email' (Users s) of
        None \<Rightarrow> (Reply 400 (Error ''User not found''), s)
      | Some u \<Rightarrow>
          (case bcrypt_compare E password (passwordHash u) of
             None \<Rightarrow> (Unhandled, s)
           | Some match \<Rightarrow>
               if \<not> match then (Reply 400 (Error ''Wrong password''), s)
               else (Reply 200 (TokenOnly (jwt_sign (JWT_SECRET E) now
                                  \<lparr>ptype = UserT, pid = user_id u\<rparr>)), s)))"

definition login_drawer_A :: "env \<Rightarrow> nat \<Rightarrow> string option \<Rightarrow> jsval \<Rightarrow> db \<Rightarrow> response \<times> db" where
  "login_drawer_A E now drawerName' password s =
     (case findOne E drawerName drawerName' (Drawers s) of
        None \<Rightarrow> (Reply 400 (Error ''Drawer not found''), s)
      | Some d \<Rightarrow>
          (case bcrypt_compare E password (drawerPasswordHash d) of
             None \<Rightarrow> (Unhandled, s)
           | Some match \<Rightarrow>
               if \<not> match then (Reply 400 (Error ''Wrong password''), s)
               else (Reply 200 (TokenOnly (jwt_sign (JWT_SECRET E) now
                                  \<lparr>ptype = DrawerT, pid = drawer_id d\<rparr>)), s)))"

definition get_notes_A :: "principal \<Rightarrow> db \<Rightarrow> response \<times> db" where
  "get_notes_A user s =
     (Reply 200 (NoteList (filter (\<lambda>n. ownerType n = ptype user \<and> ownerId n = pid user) (Notes s))), s)"

definition create_note_A :: "nat \<Rightarrow> principal \<Rightarrow> string option \<Rightarrow> string option \<Rightarrow> db \<Rightarrow> response \<times> db" where
  "create_note_A now user title' content' s =
     (let n = \<lparr>note_id = next_oid s, ownerType = ptype user, ownerId = pid user,
               title = Some (or_empty title'), content = Some (or_empty content'),
               createdAt = now, updatedAt = None\<rparr>
      in (Reply 200 (NoteDoc n), s\<lparr>Notes := Notes s @ [n], next_oid := Suc (next_oid s)\<rparr>))"

text \<open>\<open>req.params.id\<close> is \<open>Some k\<close> when the string is an ObjectId and \<open>None\<close> when it
  is not; casting the filter then throws, which nothing catches in variant A.\<close>

definition update_note_A :: "env \<Rightarrow> principal \<Rightarrow> oid option \<Rightarrow> string option \<Rightarrow> string option \<Rightarrow> db \<Rightarrow> response \<times> db" where
  "update_note_A E user id' title' content' s =
     (case id' of
        None \<Rightarrow> (Unhandled, s)
      | Some k \<Rightarrow>
          (case findOneAndUpdate (\<lambda>n. note_id n = k \<and> ownerId n = pid user)
                  (\<lambda>n. n\<lparr>title := set_field E title' (title n),
                         content := set_field E content' (content n)\<rparr>) (Notes s) of
             (n, ns) \<Rightarrow>
               (Reply 200 (case n of None \<Rightarrow> Null | Some n' \<Rightarrow> NoteDoc n'), s\<lparr>Notes := ns\<rparr>)))"

definition delete_note_A :: "principal \<Rightarrow> oid option \<Rightarrow> db \<Rightarrow> response \<times> db" where
  "delete_note_A user id' s =
     (case id' of
        None \<Rightarrow> (Unhandled, s)
      | Some k \<Rightarrow>
          (Reply 200 Success,
           s\<lparr>Notes := deleteOne (\<lambda>n. note_id n = k \<and> ownerId n = pid user) (Notes s)\<rparr>))"

section \<open>Variant B\<close>

text \<open>Each handler of variant B runs in \<open>try { ... } catch { 500 'server error' }\<close>.
  The store itself never fails in this model, so the \<open>catch\<close> is reached where a
  library call throws: \<open>bcrypt\<close> on a password that is not a string, and the cast of a
  \<open>:id\<close> that is not an ObjectId.\<close>

definition signToken :: "env \<Rightarrow> nat \<Rightarrow> principal \<Rightarrow> token" where
  "signToken E now p = jwt_sign (JWT_SECRET E) now p"

definition register_B :: "env \<Rightarrow> nat \<Rightarrow> string option \<Rightarrow> string option \<Rightarrow> jsval \<Rightarrow> db \<Rightarrow> response \<times> db" where
  "register_B E now email' username' password s =
     (case email' of
        None \<Rightarrow> (Reply 400 (Error ''email and password required''), s)
      | Some e \<Rightarrow>
          if e = [] \<or> falsy password then (Reply 400 (Error ''email and password required''), s)
          else (case find (\<lambda>u. email u = e) (Users s) of
                  Some existing \<Rightarrow> (Reply 400 (Error ''Email already in use''), s)
                | None \<Rightarrow>
                    (case bcrypt_hash_data E password of
                       None \<Rightarrow> (Reply 500 (Error ''server error''), s)
                     | Some h \<Rightarrow>
                         let user = \<lparr>user_id = next_oid s, email = e, username = username',
                                     passwordHash = h\<rparr>
                         in (Reply 200 (TokenUser (signToken E now \<lparr>ptype = UserT, pid = user_id user\<rparr>)
                                          (user_id user) (email user) (username user)),
                             s\<lparr>Users := Users s @ [user], next_oid := Suc (next_oid s)\<rparr>))))"

definition login_B :: "env \<Rightarrow> nat \<Rightarrow> string option \<Rightarrow> jsval \<Rightarrow> db \<Rightarrow> response \<times> db" where
  "login_B E now email' password s =
     (case email' of
        None \<Rightarrow> (Reply 400 (Error ''email and password required''), s)
      | Some e \<Rightarrow>
          if e = [] \<or> falsy password then (Reply 400 (Error ''email and password required''), s)
          else (case find (\<lambda>u. email u = e) (Users s) of
                  None \<Rightarrow> (Reply 400 (Error ''Invalid credentials''), s)
                | Some user \<Rightarrow>
                    (case bcrypt_compare E password (passwordHash user) of
                       None \<Rightarrow> (Reply 500 (Error ''server error''), s)
                     | Some ok \<Rightarrow>
                         if \<not> ok then (Reply 400 (Error ''Invalid credentials''), s)
                         else (Reply 200 (TokenUser (signToken E now \<lparr>ptype = UserT, pid = user_id user\<rparr>)
                                            (user_id user) (email user) (username user)), s))))"

definition create_drawer_B :: "env \<Rightarrow> nat \<Rightarrow> string option \<Rightarrow> jsval \<Rightarrow> db \<Rightarrow> response \<times> db" where
  "create_drawer_B E now drawerName' password s =
     (case drawerName' of
        None \<Rightarrow> (Reply 400 (Error ''drawerName and password required''), s)
      | Some d \<Rightarrow>
          if d = [] \<or> falsy password
          then (Reply 400 (Error ''drawerName and password required''), s)
          else (case find (\<lambda>x. drawerName x = d) (Drawers s) of
                  Some existing \<Rightarrow> (Reply 400 (Error ''Drawer name taken''), s)
                | None \<Rightarrow>
                    (case bcrypt_hash_data E password of
                       None \<Rightarrow> (Reply 500 (Error ''server error''), s)
                     | Some h \<Rightarrow>
                         let drawer = \<lparr>drawer_id = next_oid s, drawerName = d,
                                       drawerPasswordHash = h\<rparr>
                         in (Reply 200 (TokenDrawer (signToken E now \<lparr>ptype = DrawerT, pid = drawer_id drawer\<rparr>)
                                          (drawer_id drawer) (drawerName drawer)),
                             s\<lparr>Drawers := Drawers s @ [drawer], next_oid := Suc (next_oid s)\<rparr>))))"

definition login_drawer_B :: "env \<Rightarrow> nat \<Rightarrow> string option \<Rightarrow> jsval \<Rightarrow> db \<Rightarrow> response \<times> db" where
  "login_drawer_B E now drawerName' password s =
     (case drawerName' of
        None \<Rightarrow> (Reply 400 (Error ''drawerName and password required''), s)
      | Some d \<Rightarrow>
          if d = [] \<or> falsy password
          then (Reply 400 (Error ''drawerName and password required''), s)
          else (case find (\<lambda>x. drawerName x = d) (Drawers s) of
                  None \<Rightarrow> (Reply 400 (Error ''Invalid credentials''), s)
                | Some drawer \<Rightarrow>
                    (case bcrypt_compare E password (drawerPasswordHash drawer) of
                       None \<Rightarrow> (Reply 500 (Error ''server error''), s)
                     | Some ok \<Rightarrow>
                         if \<not> ok then (Reply 400 (Error ''Invalid credentials''), s)
                         else (Reply 200 (TokenDrawer (signToken E now \<lparr>ptype = DrawerT, pid = drawer_id drawer\<rparr>)
                                            (drawer_id drawer) (drawerName drawer)), s))))"

definition get_notes_B :: "principal \<Rightarrow> db \<Rightarrow> response \<times> db" where
  "get_notes_B user s =
     (Reply 200 (NoteList (sort_createdAt_desc
        (filter (\<lambda>n. ownerType n = ptype user \<and> ownerId n = pid user) (Notes s)))), s)"

definition create_note_B :: "nat \<Rightarrow> principal \<Rightarrow> string option \<Rightarrow> string option \<Rightarrow> db \<Rightarrow> response \<times> db" where
  "create_note_B now user title' content' s =
     (let note = \<lparr>note_id = next_oid s, ownerType = ptype user, ownerId = pid user,
                  title = Some (or_empty title'), content = Some (or_empty content'),
                  createdAt = now, updatedAt = None\<rparr>
      in (Reply 200 (NoteDoc note), s\<lparr>Notes := Notes s @ [note], next_oid := Suc (next_oid s)\<rparr>))"

definition update_note_B :: "nat \<Rightarrow> principal \<Rightarrow> oid option \<Rightarrow> string option \<Rightarrow> string option \<Rightarrow> db \<Rightarrow> response \<times> db" where
  "update_note_B now user id' title' content' s =
     (case id' of
        None \<Rightarrow> (Reply 500 (Error ''server error''), s)
      | Some noteId \<Rightarrow>
          (case findById noteId (Notes s) of
             None \<Rightarrow> (Reply 404 (Error ''not found''), s)
           | Some note \<Rightarrow>
               if ownerId note \<noteq> pid user \<or> ownerType note \<noteq> ptype user
               then (Reply 403 (Error ''forbidden''), s)
               else let note' = note\<lparr>title := title', content := content', updatedAt := Some now\<rparr>
                    in (Reply 200 (NoteDoc note'), s\<lparr>Notes := save note' (Notes s)\<rparr>)))"

definition delete_note_B :: "principal \<Rightarrow> oid option \<Rightarrow> db \<Rightarrow> response \<times> db" where
  "delete_note_B user id' s =
     (case id' of
        None \<Rightarrow> (Reply 500 (Error ''server error''), s)
      | Some noteId \<Rightarrow>
          (case findById noteId (Notes s) of
             None \<Rightarrow> (Reply 404 (Error ''not found''), s)
           | Some note \<Rightarrow>
               if ownerId note \<noteq> pid user \<or> ownerType note \<noteq> ptype user
               then (Reply 403 (Error ''forbidden''), s)
               else (Reply 200 Success,
                     s\<lparr>Notes := deleteOne (\<lambda>n. note_id n = noteId) (Notes s)\<rparr>)))"

section \<open>The auth gateway and the service as a state machine\<close>

text \<open>The middleware of variant A. Its argument is the token of the
  \<open>Authorization\<close> header, \<open>None\<close> when the request has none. A token that does not
  verify is answered with 401; the payload of one that does becomes \<open>req.user\<close>.
  (A header with no token after its first word is answered with 401 too, \<open>No token\<close>
  in variant A and \<open>Invalid token\<close> in variant B; like every 401 it leaves the store
  as it is and shows no note.)\<close>

definition auth :: "env \<Rightarrow> nat \<Rightarrow> token option \<Rightarrow> response + principal" where
  "auth E now bearer =
     (case bearer of
        None \<Rightarrow> Inl (Reply 401 (Error ''No token''))
      | Some t \<Rightarrow>
          (case jwt_verify (JWT_SECRET E) now t of
             None \<Rightarrow> Inl (Reply 401 (Error ''Invalid token''))
           | Some p \<Rightarrow> Inr p))"

text \<open>The middleware of variant B.\<close>

definition authMiddleware :: "env \<Rightarrow> nat \<Rightarrow> token option \<Rightarrow> response + principal" where
  "authMiddleware E now header =
     (case header of
        None \<Rightarrow> Inl (Reply 401 (Error ''No auth token''))
      | Some t \<Rightarrow>
          (case jwt_verify (JWT_SECRET E) now t of
             None \<Rightarrow> Inl (Reply 401 (Error ''Invalid token''))
           | Some p \<Rightarrow> Inr p))"

text \<open>The requests of the HTTP interface. \<open>Register\<close> carries email, username and
  password (variant A ignores the username).\<close>

datatype request =
    Register "string option" "string option" jsval
  | CreateDrawer "string option" jsval
  | Login "string option" jsval
  | LoginDrawer "string option" jsval
  | GetNotes "token option"
  | CreateNote "token option" "string option" "string option"
  | UpdateNote "token option" "oid option" "string option" "string option"
  | DeleteNote "token option" "oid option"

fun handle_A :: "env \<Rightarrow> nat \<Rightarrow> request \<Rightarrow> db \<Rightarrow> response \<times> db" where
  "handle_A E now (Register e u p) s = register_A E now e p s"
| "handle_A E now (CreateDrawer d p) s = create_drawer_A E now d p s"
| "handle_A E now (Login e p) s = login_A E now e p s"
| "handle_A E now (LoginDrawer d p) s = login_drawer_A E now d p s"
| "handle_A E now (GetNotes b) s =
     (case auth E now b of Inl r \<Rightarrow> (r, s) | Inr user \<Rightarrow> get_notes_A user s)"
| "handle_A E now (CreateNote b t c) s =
     (case auth E now b of Inl r \<Rightarrow> (r, s) | Inr user \<Rightarrow> create_note_A now user t c s)"
| "handle_A E now (UpdateNote b k t c) s =
     (case auth E now b of Inl r \<Rightarrow> (r, s) | Inr user \<Rightarrow> update_note_A E user k t c s)"
| "handle_A E now (DeleteNote b k) s =
     (case auth E now b of Inl r \<Rightarrow> (r, s) | Inr user \<Rightarrow> delete_note_A user k s)"

fun handle_B :: "env \<Rightarrow> nat \<Rightarrow> request \<Rightarrow> db \<Rightarrow> response \<times> db" where
  "handle_B E now (Register e u p) s = register_B E now e u p s"
| "handle_B E now (CreateDrawer d p) s = create_drawer_B E now d p s"
| "handle_B E now (Login e p) s = login_B E now e p s"
| "handle_B E now (LoginDrawer d p) s = login_drawer_B E now d p s"
| "handle_B E now (GetNotes b) s =
     (case authMiddleware E now b of Inl r \<Rightarrow> (r, s) | Inr user \<Rightarrow> get_notes_B user s)"
| "handle_B E now (CreateNote b t c) s =
     (case authMiddleware E now b of Inl r \<Rightarrow> (r, s) | Inr user \<Rightarrow> create_note_B now user t c s)"
| "handle_B E now (UpdateNote b k t c) s =
     (case authMiddleware E now b of Inl r \<Rightarrow> (r, s) | Inr user \<Rightarrow> update_note_B now user k t c s)"
| "handle_B E now (DeleteNote b k) s =
     (case authMiddleware E now b of Inl r \<Rightarrow> (r, s) | Inr user \<Rightarrow> delete_note_B user k s)"

text \<open>A run serves a list of requests, each with the clock reading it observes, one
  after the other. The reachable stores are those a run produces from \<open>init_db\<close>.\<close>

fun run :: "(nat \<Rightarrow> request \<Rightarrow> db \<Rightarrow> response \<times> db) \<Rightarrow> (nat \<times> request) list \<Rightarrow> db \<Rightarrow> db" where
  "run h [] s = s"
| "run h ((now, req) # rs) s = run h rs (snd (h now req s))"

section \<open>Vocabulary of the properties\<close>

text \<open>The owner pair of a note.\<close>

definition owner :: "note_doc \<Rightarrow> principal" where
  "owner n = \<lparr>ptype = ownerType n, pid = ownerId n\<rparr>"

text \<open>The notes a response shows to its receiver.\<close>

fun notes_in :: "response \<Rightarrow> note_doc list" where
  "notes_in (Reply c (NoteList ns)) = ns"
| "notes_in (Reply c (NoteDoc n)) = [n]"
| "notes_in r = []"

text \<open>The token a request presents.\<close>

fun bearer_of :: "request \<Rightarrow> token option" where
  "bearer_of (GetNotes b) = b"
| "bearer_of (CreateNote b t c) = b"
| "bearer_of (UpdateNote b k t c) = b"
| "bearer_of (DeleteNote b k) = b"
| "bearer_of r = None"

text \<open>The authenticated caller of a request: the payload of the token it presents, when
  that token verifies.\<close>

definition caller_of :: "env \<Rightarrow> nat \<Rightarrow> request \<Rightarrow> principal option" where
  "caller_of E now req =
     (case bearer_of req of None \<Rightarrow> None | Some t \<Rightarrow> jwt_verify (JWT_SECRET E) now t)"

text \<open>Newest first by creation time.\<close>

definition newest_first :: "note_doc list \<Rightarrow> bool" where
  "newest_first ns = sorted_wrt (\<lambda>a b. createdAt b \<le> createdAt a) ns"

text \<open>Identifiers are fresh and unique over all collections.\<close>

definition all_ids :: "db \<Rightarrow> oid list" where
  "all_ids s = map user_id (Users s) @ map drawer_id (Drawers s) @ map note_id (Notes s)"

definition wf_db :: "db \<Rightarrow> bool" where
  "wf_db s = (distinct (all_ids s) \<and> list_all (\<lambda>i. i < next_oid s) (all_ids s))"

text \<open>From \<open>s\<close> to \<open>s'\<close> the generator only advances, and every note of \<open>s'\<close> whose
  identifier was handed out before \<open>s\<close> is a note of \<open>s\<close> with the same owner pair.\<close>

definition keeps_owners :: "db \<Rightarrow> db \<Rightarrow> bool" where
  "keeps_owners s s' =
     (next_oid s \<le> next_oid s' \<and>
      list_all (\<lambda>n'. note_id n' < next_oid s \<longrightarrow>
                  list_ex (\<lambda>n. note_id n = note_id n' \<and> owner n = owner n') (Notes s)) (Notes s'))"

text \<open>Inputs for the examples: a stand-in for the hashing primitive, the secret variant A
  falls back to, and a run that registers a user and a drawer and lets each create a
  note with the token its registration returned.\<close>

definition example_env :: env where
  "example_env = \<lparr>JWT_SECRET = ''dev_secret'',
                  bcrypt_hash = (\<lambda>p. CHR ''#'' # p), bcrypt_matches = (\<lambda>p h. h = CHR ''#'' # p),
                  undefined_filter_any = False, omit_undefined = False\<rparr>"

definition alice :: principal where
  "alice = \<lparr>ptype = UserT, pid = 0\<rparr>"

definition team1 :: principal where
  "team1 = \<lparr>ptype = DrawerT, pid = 1\<rparr>"

definition alice_token :: token where
  "alice_token = jwt_sign ''dev_secret'' 10 alice"

definition team1_token :: token where
  "team1_token = jwt_sign ''dev_secret'' 20 team1"

definition example_requests :: "(nat \<times> request) list" where
  "example_requests =
     [(10, Register (Some ''a@x.com'') None (JStr ''pw1'')),
      (20, CreateDrawer (Some ''team1'') (JStr ''pw'')),
      (30, CreateNote (Some alice_token) (Some ''A'') (Some ''B'')),
      (40, CreateNote (Some team1_token) (Some ''T'') None),
      (50, CreateNote (Some alice_token) (Some ''C'') (Some ''D''))]"

definition example_db :: db where
  "example_db =
     \<lparr>Users = [\<lparr>user_id = 0, email = ''a@x.com'', username = None, passwordHash = ''#pw1''\<rparr>],
      Drawers = [\<lparr>drawer_id = 1, drawerName = ''team1'', drawerPasswordHash = ''#pw''\<rparr>],
      Notes = [\<lparr>note_id = 2, ownerType = UserT, ownerId = 0, title = Some ''A'',
                content = Some ''B'', createdAt = 30, updatedAt = None\<rparr>,
               \<lparr>note_id = 3, ownerType = DrawerT, ownerId = 1, title = Some ''T'',
                content = Some [], createdAt = 40, updatedAt = None\<rparr>,
               \<lparr>note_id = 4, ownerType = UserT, ownerId = 0, title = Some ''C'',
                content = Some ''D'', createdAt = 50, updatedAt = None\<rparr>],
      next_oid = 5\<rparr>"

text \<open>A token for the payload \<open>{ type: 'user', id: 1 }\<close>, made with the fallback secret
  by someone who read it in the source; \<open>1\<close> is the identifier of the drawer.\<close>

definition forged_token :: token where
  "forged_token = jwt_sign ''dev_secret'' 60 \<lparr>ptype = UserT, pid = 1\<rparr>"

section \<open>Facts about the store operations\<close>

lemma deleteOne_none: "find P ns = None \<Longrightarrow> deleteOne P ns = ns"
  by (induction ns) (auto split: if_splits)

lemma find_conj_none: "find P ns = None \<Longrightarrow> find (\<lambda>n. P n \<and> Q n) ns = None"
  by (induction ns) (auto split: if_splits)

lemma findById_SomeD: "findById k ns = Some n \<Longrightarrow> note_id n = k \<and> n \<in> set ns"
  unfolding findById_def by (induction ns) (auto split: if_splits)

lemma findById_save:
  "findById k ns = Some n \<Longrightarrow> note_id n' = k \<Longrightarrow> findById k (save n' ns) = Some n'"
  unfolding findById_def by (induction ns) (auto split: if_splits)

lemma findById_save_other: "j \<noteq> note_id n' \<Longrightarrow> findById j (save n' ns) = findById j ns"
  unfolding findById_def by (induction ns) auto

lemma length_save: "length (save n' ns) = length ns"
  by (induction ns) auto

lemma fou_none: "find P ns = None \<Longrightarrow> findOneAndUpdate P f ns = (None, ns)"
  by (induction ns) (auto split: if_splits)

lemma fou_some: "find P ns = Some n \<Longrightarrow> fst (findOneAndUpdate P f ns) = Some (f n)"
  by (induction ns) (auto split: if_splits prod.splits)

lemma fou_length: "length (snd (findOneAndUpdate P f ns)) = length ns"
  by (induction ns) (auto split: prod.splits)

lemma fou_find:
  assumes inv: "\<And>m. P (f m) = P m"
  shows "find P ns = Some n \<Longrightarrow> find P (snd (findOneAndUpdate P f ns)) = Some (f n)"
proof (induction ns)
  case Nil
  then show ?case by simp
next
  case (Cons a ns)
  show ?case
  proof (cases "P a")
    case True
    with Cons.prems have "a = n" by simp
    with True show ?thesis by (simp add: inv)
  next
    case False
    with Cons show ?thesis by (simp add: split_beta)
  qed
qed

section \<open>Delete: the two variants\<close>

text \<open>
  C5. The variants disagree on delete. Variant A reports success, and leaves the store
  as it is, for an id no note has (\<open>k\<close>) and for an id under which the caller owns no
  note (\<open>j\<close>). Variant B answers 404 \<open>not found\<close> for the id no note has. On that
  input the two operations differ.
\<close>

theorem delete_variants_disagree:
  assumes missing: "findById k (Notes s) = None"
    and foreign: "find (\<lambda>n. note_id n = j \<and> ownerId n = pid p) (Notes s) = None"
  shows "delete_note_A p (Some k) s = (Reply 200 Success, s) \<and>
         delete_note_A p (Some j) s = (Reply 200 Success, s) \<and>
         delete_note_B p (Some k) s = (Reply 404 (Error ''not found''), s) \<and>
         delete_note_A p (Some k) s \<noteq> delete_note_B p (Some k) s"
proof -
  from missing have "find (\<lambda>n. note_id n = k \<and> ownerId n = pid p) (Notes s) = None"
    unfolding findById_def by (rule find_conj_none)
  then have a: "delete_note_A p (Some k) s = (Reply 200 Success, s)"
    by (simp add: delete_note_A_def deleteOne_none)
  from foreign have b: "delete_note_A p (Some j) s = (Reply 200 Success, s)"
    by (simp add: delete_note_A_def deleteOne_none)
  from missing have c: "delete_note_B p (Some k) s = (Reply 404 (Error ''not found''), s)"
    by (simp add: delete_note_B_def)
  from a b c show ?thesis by simp
qed

theorem delete_variants_disagree_witness:
  "delete_note_A alice (Some 7) example_db = (Reply 200 Success, example_db) \<and>
   delete_note_A alice (Some 3) example_db = (Reply 200 Success, example_db) \<and>
   delete_note_B alice (Some 7) example_db = (Reply 404 (Error ''not found''), example_db) \<and>
   delete_note_A alice (Some 7) example_db \<noteq> delete_note_B alice (Some 7) example_db"
proof -
  have 1: "findById 7 (Notes example_db) = None" by code_simp
  have 2: "find (\<lambda>n. note_id n = 3 \<and> ownerId n = pid alice) (Notes example_db) = None"
    by code_simp
  show ?thesis using delete_variants_disagree [OF 1 2] by simp
qed

section \<open>Update in variant B with fields left out\<close>

text \<open>
  C10. In variant B, an update of a note the caller owns whose body leaves out the
  title stores and returns the note without a title; the previous title is not kept.
  The same holds for the content, and an empty body erases both. Each of these
  updates answers 200 and sets \<open>updatedAt\<close>.
\<close>

theorem update_B_omitted_fields_erased:
  assumes "findById k (Notes s) = Some n" and "ownerId n = pid p" and "ownerType n = ptype p"
  shows "fst (update_note_B now p (Some k) None c s) =
           Reply 200 (NoteDoc (n\<lparr>title := None, content := c, updatedAt := Some now\<rparr>)) \<and>
         findById k (Notes (snd (update_note_B now p (Some k) None c s))) =
           Some (n\<lparr>title := None, content := c, updatedAt := Some now\<rparr>) \<and>
         fst (update_note_B now p (Some k) t None s) =
           Reply 200 (NoteDoc (n\<lparr>title := t, content := None, updatedAt := Some now\<rparr>)) \<and>
         findById k (Notes (snd (update_note_B now p (Some k) t None s))) =
           Some (n\<lparr>title := t, content := None, updatedAt := Some now\<rparr>) \<and>
         fst (update_note_B now p (Some k) None None s) =
           Reply 200 (NoteDoc (n\<lparr>title := None, content := None, updatedAt := Some now\<rparr>)) \<and>
         findById k (Notes (snd (update_note_B now p (Some k) None None s))) =
           Some (n\<lparr>title := None, content := None, updatedAt := Some now\<rparr>)"
proof -
  have id: "note_id n = k" using assms(1) by (simp add: findById_SomeD)
  have *: "\<And>t c. update_note_B now p (Some k) t c s =
      (Reply 200 (NoteDoc (n\<lparr>title := t, content := c, updatedAt := Some now\<rparr>)),
       s\<lparr>Notes := save (n\<lparr>title := t, content := c, updatedAt := Some now\<rparr>) (Notes s)\<rparr>)"
    using assms by (simp add: update_note_B_def Let_def)
  have **: "\<And>t c. findById k (save (n\<lparr>title := t, content := c, updatedAt := Some now\<rparr>) (Notes s)) =
      Some (n\<lparr>title := t, content := c, updatedAt := Some now\<rparr>)"
    using assms(1) id by (simp add: findById_save)
  show ?thesis by (simp add: * **)
qed

theorem update_B_omitted_fields_erased_witness:
  "fst (update_note_B 60 alice (Some 2) None None example_db) =
     Reply 200 (NoteDoc \<lparr>note_id = 2, ownerType = UserT, ownerId = 0, title = None,
                content = None, createdAt = 30, updatedAt = Some 60\<rparr>) \<and>
   findById 2 (Notes (snd (update_note_B 60 alice (Some 2) None None example_db))) =
     Some \<lparr>note_id = 2, ownerType = UserT, ownerId = 0, title = None,
           content = None, createdAt = 30, updatedAt = Some 60\<rparr>"
proof -
  have 1: "findById 2 (Notes example_db) =
      Some \<lparr>note_id = 2, ownerType = UserT, ownerId = 0, title = Some ''A'',
            content = Some ''B'', createdAt = 30, updatedAt = None\<rparr>"
    by code_simp
  show ?thesis
    using update_B_omitted_fields_erased [OF 1, of alice 60 None None] by (simp add: alice_def)
qed

lemma owner_eq: "owner n = p \<longleftrightarrow> ownerType n = ptype p \<and> ownerId n = pid p"
  by (cases p) (auto simp: owner_def)

lemma find_conj_some: "find P ns = Some n \<Longrightarrow> Q n \<Longrightarrow> find (\<lambda>x. P x \<and> Q x) ns = Some n"
  by (induction ns) (auto split: if_splits)

lemma example_run_A: "run (handle_A example_env) example_requests init_db = example_db"
  by code_simp

lemma example_run_B: "run (handle_B example_env) example_requests init_db = example_db"
  by code_simp

section \<open>Create, then list\<close>

text \<open>
  C9. For every principal, creating a note with title \<open>a\<close> and content \<open>b\<close> and then
  listing for the same principal answers 200 with a list that holds a note with that
  title and that content, owned by the principal. This holds in both variants and in
  every store.
\<close>
theorem create_then_list:
  "(\<exists>ns. get_notes_A p (snd (create_note_A now p (Some a) (Some b) s)) =
           (Reply 200 (NoteList ns), snd (create_note_A now p (Some a) (Some b) s)) \<and>
         (\<exists>n \<in> set ns. title n = Some a \<and> content n = Some b \<and>
                         ownerType n = ptype p \<and> ownerId n = pid p)) \<and>
   (\<exists>ns. get_notes_B p (snd (create_note_B now p (Some a) (Some b) s)) =
           (Reply 200 (NoteList ns), snd (create_note_B now p (Some a) (Some b) s)) \<and>
         (\<exists>n \<in> set ns. title n = Some a \<and> content n = Some b \<and>
                         ownerType n = ptype p \<and> ownerId n = pid p))"
  by (simp add: get_notes_A_def create_note_A_def get_notes_B_def create_note_B_def
        sort_createdAt_desc_def or_empty_def Let_def)

section \<open>Registering an email twice\<close>

text \<open>
  C7. When a user with the email \<open>e\<close> is in the store, a registration of \<open>e\<close> (a
  request that carries both required fields) is answered with 400 and the duplicate
  error, \<open>User already exists\<close> in variant A and \<open>Email already in use\<close> in variant B,
  and the store is left as it was: no second user record is created.
\<close>

theorem register_duplicate_email:
  assumes "e \<in> set (map email (Users s))" and "e \<noteq> []" and "\<not> falsy pw"
  shows "register_A E now (Some e) pw s = (Reply 400 (Error ''User already exists''), s) \<and>
         register_B E now (Some e) un pw s = (Reply 400 (Error ''Email already in use''), s)"
proof -
  from assms(1) have "find (\<lambda>u. email u = e) (Users s) \<noteq> None"
    by (auto simp: find_None_iff)
  then obtain u where u: "find (\<lambda>u. email u = e) (Users s) = Some u" by auto
  show ?thesis using u assms(2,3) by (simp add: register_A_def register_B_def)
qed

theorem register_duplicate_email_witness:
  "register_A example_env 20 (Some ''a@x.com'') (JStr ''pw2'')
      (snd (register_A example_env 10 (Some ''a@x.com'') (JStr ''pw1'') init_db)) =
     (Reply 400 (Error ''User already exists''),
      snd (register_A example_env 10 (Some ''a@x.com'') (JStr ''pw1'') init_db)) \<and>
   register_B example_env 20 (Some ''a@x.com'') None (JStr ''pw2'')
      (snd (register_A example_env 10 (Some ''a@x.com'') (JStr ''pw1'') init_db)) =
     (Reply 400 (Error ''Email already in use''),
      snd (register_A example_env 10 (Some ''a@x.com'') (JStr ''pw1'') init_db))"
proof -
  have 1: "''a@x.com'' \<in> set (map email
      (Users (snd (register_A example_env 10 (Some ''a@x.com'') (JStr ''pw1'') init_db))))"
    by code_simp
  have 2: "''a@x.com'' \<noteq> []" by simp
  have 3: "\<not> falsy (JStr ''pw2'')" by simp
  show ?thesis using register_duplicate_email [OF 1 2 3] by simp
qed

lemma sorted_desc_sort_key:
  "sorted_wrt (\<lambda>a b. createdAt b \<le> createdAt a) (sort_key (\<lambda>n. - int (createdAt n)) ns)"
proof -
  have "sorted (map (\<lambda>n. - int (createdAt n)) (sort_key (\<lambda>n. - int (createdAt n)) ns))"
    by (rule sorted_sort_key)
  then show ?thesis
    by (simp add: sorted_map sorted_wrt_iff_nth_less)
qed

section \<open>Listing\<close>

text \<open>
  C3, as amended. For every principal and store, both variants answer 200 with exactly
  the notes whose owner pair is the principal's, each as often as it is stored.
  Variant B returns them newest first by creation time; variant A returns them in the
  order of the store.
\<close>
theorem list_own_notes:
  "(\<exists>ns. get_notes_A p s = (Reply 200 (NoteList ns), s) \<and>
         ns = filter (\<lambda>n. owner n = p) (Notes s)) \<and>
   (\<exists>ns. get_notes_B p s = (Reply 200 (NoteList ns), s) \<and>
         mset ns = mset (filter (\<lambda>n. owner n = p) (Notes s)) \<and>
         set ns = {n \<in> set (Notes s). owner n = p} \<and>
         newest_first ns)"
  by (simp add: get_notes_A_def get_notes_B_def owner_eq sort_createdAt_desc_def
        newest_first_def sorted_desc_sort_key)

text \<open>Against C3 as stated: in variant A, on a reachable store, the list is not newest
  first.\<close>

theorem list_A_oldest_first:
  "run (handle_A example_env) example_requests init_db = example_db \<and>
   map createdAt (notes_in (fst (get_notes_A alice example_db))) = [30, 50] \<and>
   \<not> newest_first (notes_in (fst (get_notes_A alice example_db)))"
proof -
  have a: "notes_in (fst (get_notes_A alice example_db)) =
     [\<lparr>note_id = 2, ownerType = UserT, ownerId = 0, title = Some ''A'',
                content = Some ''B'', createdAt = 30, updatedAt = None\<rparr>,
      \<lparr>note_id = 4, ownerType = UserT, ownerId = 0, title = Some ''C'',
                content = Some ''D'', createdAt = 50, updatedAt = None\<rparr>]"
    by code_simp
  show ?thesis by (simp add: a example_run_A newest_first_def)
qed

section \<open>Login failures\<close>

text \<open>
  C4, as amended. In variant B, for a non-empty string email and a non-empty string
  password, a login with an unknown email and a login with a known email and a password
  that does not match get the same reply, 400 \<open>Invalid credentials\<close>, and both leave the
  store unchanged. In variant A both get status 400 too, but the messages differ:
  \<open>User not found\<close> for the unknown email and \<open>Wrong password\<close> for the mismatch.
\<close>

theorem login_failures:
  "(e \<noteq> [] \<and> p \<noteq> [] \<and> find (\<lambda>u. email u = e) (Users s) = None \<longrightarrow>
      login_B E now (Some e) (JStr p) s = (Reply 400 (Error ''Invalid credentials''), s)) \<and>
   (\<forall>u. e' \<noteq> [] \<and> p' \<noteq> [] \<and> find (\<lambda>u. email u = e') (Users s') = Some u \<and>
        \<not> bcrypt_matches E p' (passwordHash u) \<longrightarrow>
      login_B E now' (Some e') (JStr p') s' = (Reply 400 (Error ''Invalid credentials''), s')) \<and>
   (\<forall>u. e \<noteq> [] \<and> p \<noteq> [] \<and> find (\<lambda>u. email u = e) (Users s) = None \<and>
        e' \<noteq> [] \<and> p' \<noteq> [] \<and> find (\<lambda>u. email u = e') (Users s') = Some u \<and>
        \<not> bcrypt_matches E p' (passwordHash u) \<longrightarrow>
      fst (login_B E now (Some e) (JStr p) s) = fst (login_B E now' (Some e') (JStr p') s')) \<and>
   (find (\<lambda>u. email u = e) (Users s) = None \<longrightarrow>
      login_A E now (Some e) (JStr p) s = (Reply 400 (Error ''User not found''), s)) \<and>
   (\<forall>u. find (\<lambda>u. email u = e') (Users s') = Some u \<and>
        \<not> bcrypt_matches E p' (passwordHash u) \<longrightarrow>
      login_A E now' (Some e') (JStr p') s' = (Reply 400 (Error ''Wrong password''), s'))"
proof -
  have B1: "login_B E now (Some e) (JStr p) s = (Reply 400 (Error ''Invalid credentials''), s)"
    if "e \<noteq> []" "p \<noteq> []" "find (\<lambda>u. email u = e) (Users s) = None"
    using that by (simp add: login_B_def)
  have B2: "login_B E now' (Some e') (JStr p') s' = (Reply 400 (Error ''Invalid credentials''), s')"
    if "e' \<noteq> []" "p' \<noteq> []" "find (\<lambda>u. email u = e') (Users s') = Some u"
      "\<not> bcrypt_matches E p' (passwordHash u)" for u
    using that by (simp add: login_B_def bcrypt_compare_def)
  have A1: "login_A E now (Some e) (JStr p) s = (Reply 400 (Error ''User not found''), s)"
    if "find (\<lambda>u. email u = e) (Users s) = None"
    using that by (simp add: login_A_def findOne_def)
  have A2: "login_A E now' (Some e') (JStr p') s' = (Reply 400 (Error ''Wrong password''), s')"
    if "find (\<lambda>u. email u = e') (Users s') = Some u" "\<not> bcrypt_matches E p' (passwordHash u)" for u
    using that by (simp add: login_A_def findOne_def bcrypt_compare_def)
  show ?thesis
    using B1 B2 A1 A2 by simp
qed

theorem login_failures_witness:
  "login_B example_env 60 (Some ''b@x.com'') (JStr ''pw1'') init_db =
     (Reply 400 (Error ''Invalid credentials''), init_db) \<and>
   login_B example_env 70 (Some ''a@x.com'') (JStr ''wrong'') example_db =
     (Reply 400 (Error ''Invalid credentials''), example_db) \<and>
   fst (login_B example_env 60 (Some ''b@x.com'') (JStr ''pw1'') init_db) =
   fst (login_B example_env 70 (Some ''a@x.com'') (JStr ''wrong'') example_db) \<and>
   login_A example_env 60 (Some ''b@x.com'') (JStr ''pw1'') init_db =
     (Reply 400 (Error ''User not found''), init_db) \<and>
   login_A example_env 70 (Some ''a@x.com'') (JStr ''wrong'') example_db =
     (Reply 400 (Error ''Wrong password''), example_db)"
proof -
  have 1: "find (\<lambda>u. email u = ''b@x.com'') (Users init_db) = None" by code_simp
  have 2: "find (\<lambda>u. email u = ''a@x.com'') (Users example_db) =
      Some \<lparr>user_id = 0, email = ''a@x.com'', username = None, passwordHash = ''#pw1''\<rparr>"
    by code_simp
  have 3: "\<not> bcrypt_matches example_env ''wrong''
      (passwordHash \<lparr>user_id = 0, email = ''a@x.com'', username = None, passwordHash = ''#pw1''\<rparr>)"
    by (simp add: example_env_def)
  show ?thesis
    using login_failures [of "''b@x.com''" "''pw1''" init_db example_env 60
        "''a@x.com''" "''wrong''" example_db 70] 1 2 3
    by simp
qed

text \<open>Against C4 as stated. In variant A, on a reachable store, the two failures are
  told apart by their replies. In variant B they are told apart when the password is not
  a string: \<open>bcrypt.compare\<close> is reached, and rejects into the 500 of the \<open>catch\<close>,
  only when the email is known.\<close>

theorem login_failures_distinguishable:
  "run (handle_A example_env) example_requests init_db = example_db \<and>
   fst (login_A example_env 60 (Some ''b@x.com'') (JStr ''wrong'') example_db) =
     Reply 400 (Error ''User not found'') \<and>
   fst (login_A example_env 60 (Some ''a@x.com'') (JStr ''wrong'') example_db) =
     Reply 400 (Error ''Wrong password'') \<and>
   fst (login_A example_env 60 (Some ''b@x.com'') (JStr ''wrong'') example_db) \<noteq>
   fst (login_A example_env 60 (Some ''a@x.com'') (JStr ''wrong'') example_db) \<and>
   run (handle_B example_env) example_requests init_db = example_db \<and>
   fst (login_B example_env 60 (Some ''b@x.com'') (JNum 123) example_db) =
     Reply 400 (Error ''Invalid credentials'') \<and>
   fst (login_B example_env 60 (Some ''a@x.com'') (JNum 123) example_db) =
     Reply 500 (Error ''server error'')"
proof -
  have a: "fst (login_A example_env 60 (Some ''b@x.com'') (JStr ''wrong'') example_db) =
     Reply 400 (Error ''User not found'')" by code_simp
  have b: "fst (login_A example_env 60 (Some ''a@x.com'') (JStr ''wrong'') example_db) =
     Reply 400 (Error ''Wrong password'')" by code_simp
  have c: "fst (login_B example_env 60 (Some ''b@x.com'') (JNum 123) example_db) =
     Reply 400 (Error ''Invalid credentials'')" by code_simp
  have d: "fst (login_B example_env 60 (Some ''a@x.com'') (JNum 123) example_db) =
     Reply 500 (Error ''server error'')" by code_simp
  show ?thesis by (simp add: a b c d example_run_A example_run_B)
qed

section \<open>Missing fields\<close>

text \<open>Where a handler checks its required fields, a missing or empty one is answered
  with 400 before anything else happens. Variant A's two login handlers have no such
  check.\<close>

lemma missing_field_validated:
  assumes "x = None \<or> x = Some [] \<or> falsy pw"
  shows "register_A E now x pw s = (Reply 400 (Error ''Email and password required''), s)"
    and "create_drawer_A E now x pw s = (Reply 400 (Error ''Drawer name and password required''), s)"
    and "register_B E now x un pw s = (Reply 400 (Error ''email and password required''), s)"
    and "login_B E now x pw s = (Reply 400 (Error ''email and password required''), s)"
    and "create_drawer_B E now x pw s = (Reply 400 (Error ''drawerName and password required''), s)"
    and "login_drawer_B E now x pw s = (Reply 400 (Error ''drawerName and password required''), s)"
  using assms
  by (auto simp: register_A_def create_drawer_A_def register_B_def login_B_def
      create_drawer_B_def login_drawer_B_def split: option.splits)

text \<open>
  C8, at the input where the code departs from it. In variant A a login (of a user or
  of a drawer) that names an existing account and carries no password is not answered
  with 400: \<open>bcrypt.compare\<close> rejects and nothing catches the rejection.
\<close>

theorem login_A_missing_password_unhandled:
  assumes "find (\<lambda>u. email u = e) (Users s) = Some u"
    and "find (\<lambda>d. drawerName d = dn) (Drawers s) = Some d"
  shows "falsy JUndefined \<and> login_A E now (Some e) JUndefined s = (Unhandled, s) \<and>
         login_drawer_A E now (Some dn) JUndefined s = (Unhandled, s)"
  using assms by (simp add: login_A_def login_drawer_A_def findOne_def bcrypt_compare_def)

theorem login_A_missing_password_unhandled_witness:
  "login_A example_env 60 (Some ''a@x.com'') JUndefined example_db = (Unhandled, example_db) \<and>
   login_drawer_A example_env 60 (Some ''team1'') JUndefined example_db = (Unhandled, example_db)"
proof -
  have 1: "find (\<lambda>u. email u = ''a@x.com'') (Users example_db) =
      Some \<lparr>user_id = 0, email = ''a@x.com'', username = None, passwordHash = ''#pw1''\<rparr>"
    by code_simp
  have 2: "find (\<lambda>d. drawerName d = ''team1'') (Drawers example_db) =
      Some \<lparr>drawer_id = 1, drawerName = ''team1'', drawerPasswordHash = ''#pw''\<rparr>"
    by code_simp
  show ?thesis using login_A_missing_password_unhandled [OF 1 2] by simp
qed

section \<open>Invariants of the reachable stores\<close>

lemma wf_db_iff:
  "wf_db s \<longleftrightarrow>
     distinct (map user_id (Users s)) \<and> distinct (map drawer_id (Drawers s)) \<and>
     distinct (map note_id (Notes s)) \<and>
     user_id ` set (Users s) \<inter> drawer_id ` set (Drawers s) = {} \<and>
     user_id ` set (Users s) \<inter> note_id ` set (Notes s) = {} \<and>
     drawer_id ` set (Drawers s) \<inter> note_id ` set (Notes s) = {} \<and>
     (\<forall>u \<in> set (Users s). user_id u < next_oid s) \<and>
     (\<forall>d \<in> set (Drawers s). drawer_id d < next_oid s) \<and>
     (\<forall>n \<in> set (Notes s). note_id n < next_oid s)"
  by (auto simp: wf_db_def all_ids_def list_all_iff)

lemma wf_init: "wf_db init_db"
  by (simp add: wf_db_iff init_db_def)

lemma wf_add_user:
  assumes "wf_db s" and "user_id u = next_oid s"
  shows "wf_db (s\<lparr>Users := Users s @ [u], next_oid := Suc (next_oid s)\<rparr>)"
  using assms unfolding wf_db_iff
  by (auto simp: less_Suc_eq)

lemma wf_add_drawer:
  assumes "wf_db s" and "drawer_id d = next_oid s"
  shows "wf_db (s\<lparr>Drawers := Drawers s @ [d], next_oid := Suc (next_oid s)\<rparr>)"
  using assms unfolding wf_db_iff
  by (auto simp: less_Suc_eq)

lemma wf_add_note:
  assumes "wf_db s" and "note_id n = next_oid s"
  shows "wf_db (s\<lparr>Notes := Notes s @ [n], next_oid := Suc (next_oid s)\<rparr>)"
  using assms unfolding wf_db_iff
  by (auto simp: less_Suc_eq)

lemma wf_notes_same:
  assumes "wf_db s" and "map note_id ns' = map note_id (Notes s)"
  shows "wf_db (s\<lparr>Notes := ns'\<rparr>)"
  using assms by (simp add: wf_db_def all_ids_def)

lemma wf_notes_sub:
  assumes "wf_db s" and "set ns' \<subseteq> set (Notes s)" and "distinct (map note_id ns')"
  shows "wf_db (s\<lparr>Notes := ns'\<rparr>)"
  using assms unfolding wf_db_iff by (simp add: subset_iff) blast

lemma keeps_owners_iff:
  "keeps_owners s s' \<longleftrightarrow>
     next_oid s \<le> next_oid s' \<and>
     (\<forall>n' \<in> set (Notes s'). note_id n' < next_oid s \<longrightarrow>
        (\<exists>n \<in> set (Notes s). note_id n = note_id n' \<and> owner n = owner n'))"
  by (simp add: keeps_owners_def list_all_iff list_ex_iff)

lemma keeps_refl: "keeps_owners s s"
  by (auto simp: keeps_owners_iff)

lemma keeps_trans: "keeps_owners s s1 \<Longrightarrow> keeps_owners s1 s2 \<Longrightarrow> keeps_owners s s2"
  unfolding keeps_owners_iff
proof (intro conjI ballI impI)
  assume a: "next_oid s \<le> next_oid s1 \<and>
     (\<forall>n' \<in> set (Notes s1). note_id n' < next_oid s \<longrightarrow>
        (\<exists>n \<in> set (Notes s). note_id n = note_id n' \<and> owner n = owner n'))"
    and b: "next_oid s1 \<le> next_oid s2 \<and>
     (\<forall>n' \<in> set (Notes s2). note_id n' < next_oid s1 \<longrightarrow>
        (\<exists>n \<in> set (Notes s1). note_id n = note_id n' \<and> owner n = owner n'))"
  from a b show "next_oid s \<le> next_oid s2" by simp
  fix n2 assume n2: "n2 \<in> set (Notes s2)" "note_id n2 < next_oid s"
  with a have "note_id n2 < next_oid s1" by simp
  with b n2 obtain n1 where n1: "n1 \<in> set (Notes s1)" "note_id n1 = note_id n2" "owner n1 = owner n2"
    by blast
  with a n2 obtain n where "n \<in> set (Notes s)" "note_id n = note_id n1" "owner n = owner n1"
    by force
  with n1 show "\<exists>n \<in> set (Notes s). note_id n = note_id n2 \<and> owner n = owner n2"
    by auto
qed

lemma keeps_add_user: "keeps_owners s (s\<lparr>Users := us, next_oid := Suc (next_oid s)\<rparr>)"
  by (auto simp: keeps_owners_iff)

lemma keeps_add_drawer: "keeps_owners s (s\<lparr>Drawers := ds, next_oid := Suc (next_oid s)\<rparr>)"
  by (auto simp: keeps_owners_iff)

lemma keeps_add_note:
  "note_id n = next_oid s \<Longrightarrow>
   keeps_owners s (s\<lparr>Notes := Notes s @ [n], next_oid := Suc (next_oid s)\<rparr>)"
  by (auto simp: keeps_owners_iff)

lemma keeps_notes_same:
  assumes "map note_id ns' = map note_id (Notes s)" and "map owner ns' = map owner (Notes s)"
  shows "keeps_owners s (s\<lparr>Notes := ns'\<rparr>)"
proof -
  have "\<exists>n \<in> set (Notes s). note_id n = note_id n' \<and> owner n = owner n'"
    if "n' \<in> set ns'" for n'
  proof -
    from that obtain i where i: "i < length ns'" "ns' ! i = n'"
      by (auto simp: in_set_conv_nth)
    have len: "length ns' = length (Notes s)"
      using assms(1) by (rule map_eq_imp_length_eq)
    have "note_id (Notes s ! i) = note_id (ns' ! i)"
      using arg_cong [OF assms(1), of "\<lambda>xs. xs ! i"] i len by simp
    moreover have "owner (Notes s ! i) = owner (ns' ! i)"
      using arg_cong [OF assms(2), of "\<lambda>xs. xs ! i"] i len by simp
    ultimately show ?thesis using i len by (auto intro!: bexI [of _ "Notes s ! i"])
  qed
  then show ?thesis by (simp add: keeps_owners_iff)
qed

lemma keeps_notes_sub: "set ns' \<subseteq> set (Notes s) \<Longrightarrow> keeps_owners s (s\<lparr>Notes := ns'\<rparr>)"
  by (auto simp: keeps_owners_iff)

lemma fou_map: "(\<And>n. g (f n) = g n) \<Longrightarrow> map g (snd (findOneAndUpdate P f ns)) = map g ns"
  by (induction ns) (simp_all add: split_beta)

lemma set_deleteOne: "set (deleteOne P ns) \<subseteq> set ns"
  by (induction ns) auto

lemma distinct_deleteOne: "distinct (map g ns) \<Longrightarrow> distinct (map g (deleteOne P ns))"
proof (induction ns)
  case Nil
  then show ?case by simp
next
  case (Cons a ns)
  have "g ` set (deleteOne P ns) \<subseteq> g ` set ns"
    using set_deleteOne [of P ns] by blast
  with Cons show ?case by auto
qed

lemma save_map:
  "findById k ns = Some n \<Longrightarrow> note_id n' = k \<Longrightarrow> g n' = g n \<Longrightarrow> map g (save n' ns) = map g ns"
  unfolding findById_def by (induction ns) (auto split: if_splits)

lemma login_A_state: "snd (login_A E now e p s) = s"
  by (simp add: login_A_def split: option.splits)

lemma login_drawer_A_state: "snd (login_drawer_A E now e p s) = s"
  by (simp add: login_drawer_A_def split: option.splits)

lemma login_B_state: "snd (login_B E now e p s) = s"
  by (simp add: login_B_def split: option.splits)

lemma login_drawer_B_state: "snd (login_drawer_B E now e p s) = s"
  by (simp add: login_drawer_B_def split: option.splits)

lemma step_register_A:
  "wf_db s \<Longrightarrow> wf_db (snd (register_A E now e p s)) \<and> keeps_owners s (snd (register_A E now e p s))"
  by (simp add: register_A_def Let_def wf_add_user keeps_add_user keeps_refl split: option.splits)

lemma step_register_B:
  "wf_db s \<Longrightarrow> wf_db (snd (register_B E now e u p s)) \<and> keeps_owners s (snd (register_B E now e u p s))"
  by (simp add: register_B_def Let_def wf_add_user keeps_add_user keeps_refl split: option.splits)

lemma step_create_drawer_A:
  "wf_db s \<Longrightarrow>
   wf_db (snd (create_drawer_A E now d p s)) \<and> keeps_owners s (snd (create_drawer_A E now d p s))"
  by (simp add: create_drawer_A_def Let_def wf_add_drawer keeps_add_drawer keeps_refl split: option.splits)

lemma step_create_drawer_B:
  "wf_db s \<Longrightarrow>
   wf_db (snd (create_drawer_B E now d p s)) \<and> keeps_owners s (snd (create_drawer_B E now d p s))"
  by (simp add: create_drawer_B_def Let_def wf_add_drawer keeps_add_drawer keeps_refl split: option.splits)

lemma principal_eta: "\<lparr>ptype = ptype user, pid = pid user\<rparr> = user"
  by (cases user) simp

lemma step_create_note_A:
  "wf_db s \<Longrightarrow>
   wf_db (snd (create_note_A now user t c s)) \<and> keeps_owners s (snd (create_note_A now user t c s))"
  by (simp add: create_note_A_def Let_def wf_add_note keeps_add_note)

lemma create_note_B_eq: "create_note_B now user t c s = create_note_A now user t c s"
  by (simp add: create_note_B_def create_note_A_def)

lemma step_create_note_B:
  "wf_db s \<Longrightarrow>
   wf_db (snd (create_note_B now user t c s)) \<and> keeps_owners s (snd (create_note_B now user t c s))"
  by (simp add: create_note_B_eq step_create_note_A)

lemma update_note_A_state:
  "snd (update_note_A E user k t c s) =
     (case k of None \<Rightarrow> s
      | Some i \<Rightarrow> s\<lparr>Notes := snd (findOneAndUpdate (\<lambda>n. note_id n = i \<and> ownerId n = pid user)
            (\<lambda>n. n\<lparr>title := set_field E t (title n), content := set_field E c (content n)\<rparr>)
            (Notes s))\<rparr>)"
  by (simp add: update_note_A_def split_beta split: option.splits)

lemma step_update_note_A:
  "wf_db s \<Longrightarrow>
   wf_db (snd (update_note_A E user k t c s)) \<and> keeps_owners s (snd (update_note_A E user k t c s))"
  by (simp add: update_note_A_state wf_notes_same keeps_notes_same fou_map owner_def keeps_refl
      split: option.splits)

lemma step_delete_note_A:
  "wf_db s \<Longrightarrow>
   wf_db (snd (delete_note_A user k s)) \<and> keeps_owners s (snd (delete_note_A user k s))"
  by (simp add: delete_note_A_def wf_notes_sub keeps_notes_sub set_deleteOne distinct_deleteOne
      keeps_refl wf_db_iff [of s] split: option.splits)

lemma step_update_note_B:
  assumes "wf_db s"
  shows "wf_db (snd (update_note_B now user k t c s)) \<and>
         keeps_owners s (snd (update_note_B now user k t c s))"
proof (cases "\<exists>i n. k = Some i \<and> findById i (Notes s) = Some n \<and>
                    \<not> (ownerId n \<noteq> pid user \<or> ownerType n \<noteq> ptype user)")
  case True
  then obtain i n where k: "k = Some i" and n: "findById i (Notes s) = Some n"
    and own: "ownerId n = pid user" "ownerType n = ptype user" by auto
  let ?n' = "n\<lparr>title := t, content := c, updatedAt := Some now\<rparr>"
  have s': "snd (update_note_B now user k t c s) = s\<lparr>Notes := save ?n' (Notes s)\<rparr>"
    using k n own by (simp add: update_note_B_def Let_def)
  have id: "note_id ?n' = i" using n by (simp add: findById_SomeD)
  have 1: "map note_id (save ?n' (Notes s)) = map note_id (Notes s)"
    by (rule save_map [OF n id]) simp
  have 2: "map owner (save ?n' (Notes s)) = map owner (Notes s)"
    by (rule save_map [OF n id]) (simp add: owner_def)
  show ?thesis unfolding s'
    using wf_notes_same [OF assms 1] keeps_notes_same [OF 1 2] by simp
next
  case False
  then have "snd (update_note_B now user k t c s) = s"
    by (auto simp: update_note_B_def Let_def split: option.splits)
  then show ?thesis using assms by (simp add: keeps_refl)
qed

lemma step_delete_note_B:
  "wf_db s \<Longrightarrow>
   wf_db (snd (delete_note_B user k s)) \<and> keeps_owners s (snd (delete_note_B user k s))"
  by (simp add: delete_note_B_def wf_notes_sub keeps_notes_sub set_deleteOne distinct_deleteOne
      keeps_refl wf_db_iff [of s] split: option.splits)

lemma step_handle_A:
  assumes "wf_db s"
  shows "wf_db (snd (handle_A E now req s)) \<and> keeps_owners s (snd (handle_A E now req s))"
proof (cases req)
  case (Register e u p)
  then show ?thesis using assms by (simp add: step_register_A)
next
  case (CreateDrawer d p)
  then show ?thesis using assms by (simp add: step_create_drawer_A)
next
  case (Login e p)
  then show ?thesis using assms by (simp add: login_A_state keeps_refl)
next
  case (LoginDrawer d p)
  then show ?thesis using assms by (simp add: login_drawer_A_state keeps_refl)
next
  case (GetNotes b)
  then show ?thesis using assms by (simp add: get_notes_A_def keeps_refl split: sum.splits)
next
  case (CreateNote b t c)
  then show ?thesis using assms
    by (simp add: step_create_note_A keeps_refl split: sum.splits)
next
  case (UpdateNote b k t c)
  then show ?thesis using assms by (simp add: step_update_note_A keeps_refl split: sum.splits)
next
  case (DeleteNote b k)
  then show ?thesis using assms by (simp add: step_delete_note_A keeps_refl split: sum.splits)
qed

lemma step_handle_B:
  assumes "wf_db s"
  shows "wf_db (snd (handle_B E now req s)) \<and> keeps_owners s (snd (handle_B E now req s))"
proof (cases req)
  case (Register e u p)
  then show ?thesis using assms by (simp add: step_register_B)
next
  case (CreateDrawer d p)
  then show ?thesis using assms by (simp add: step_create_drawer_B)
next
  case (Login e p)
  then show ?thesis using assms by (simp add: login_B_state keeps_refl)
next
  case (LoginDrawer d p)
  then show ?thesis using assms by (simp add: login_drawer_B_state keeps_refl)
next
  case (GetNotes b)
  then show ?thesis using assms by (simp add: get_notes_B_def keeps_refl split: sum.splits)
next
  case (CreateNote b t c)
  then show ?thesis using assms
    by (simp add: step_create_note_B keeps_refl split: sum.splits)
next
  case (UpdateNote b k t c)
  then show ?thesis using assms by (simp add: step_update_note_B keeps_refl split: sum.splits)
next
  case (DeleteNote b k)
  then show ?thesis using assms by (simp add: step_delete_note_B keeps_refl split: sum.splits)
qed

lemma run_invariant:
  assumes step: "\<And>now req s. wf_db s \<Longrightarrow> wf_db (snd (h now req s)) \<and> keeps_owners s (snd (h now req s))"
  shows "wf_db s \<Longrightarrow> wf_db (run h reqs s) \<and> keeps_owners s (run h reqs s)"
proof (induction reqs arbitrary: s)
  case Nil
  then show ?case by (simp add: keeps_refl)
next
  case (Cons x reqs)
  obtain now req where x: "x = (now, req)" by (cases x)
  from step [OF Cons.prems] have 1: "wf_db (snd (h now req s))" "keeps_owners s (snd (h now req s))"
    by simp_all
  from Cons.IH [OF 1(1)] have 2: "wf_db (run h reqs (snd (h now req s)))"
    "keeps_owners (snd (h now req s)) (run h reqs (snd (h now req s)))" by simp_all
  show ?case using 2 keeps_trans [OF 1(2) 2(2)] by (simp add: x)
qed

lemma wf_run_A: "wf_db (run (handle_A E) reqs init_db)"
  using run_invariant [of "handle_A E", OF step_handle_A wf_init] by simp

lemma wf_run_B: "wf_db (run (handle_B E) reqs init_db)"
  using run_invariant [of "handle_B E", OF step_handle_B wf_init] by simp

lemma owner_kept:
  assumes wf: "wf_db s" and keeps: "keeps_owners s s'"
    and n: "n \<in> set (Notes s)" and n': "n' \<in> set (Notes s')" and id: "note_id n' = note_id n"
  shows "owner n' = owner n"
proof -
  from wf n have "note_id n < next_oid s" by (simp add: wf_db_iff)
  with keeps n' id obtain m where m: "m \<in> set (Notes s)" "note_id m = note_id n'" "owner m = owner n'"
    unfolding keeps_owners_iff by force
  from wf have "distinct (map note_id (Notes s))" by (simp add: wf_db_iff)
  with m n id have "m = n" by (auto simp: distinct_map inj_on_def)
  with m show ?thesis by simp
qed

lemma fou_findById_other:
  assumes "\<And>n. P n \<Longrightarrow> note_id n = k" and "\<And>n. note_id (f n) = note_id n" and "j \<noteq> k"
  shows "findById j (snd (findOneAndUpdate P f ns)) = findById j ns"
proof (induction ns)
  case Nil
  then show ?case by simp
next
  case (Cons a ns)
  show ?case
  proof (cases "P a")
    case True
    then have "note_id a \<noteq> j" using assms(1,3) by auto
    with True show ?thesis by (simp add: findById_def assms(2))
  next
    case False
    with Cons show ?thesis by (simp add: findById_def split_beta)
  qed
qed

section \<open>Update\<close>

text \<open>
  C2, as amended. In variant B, for every principal and every id, update answers 404
  \<open>not found\<close> when no note has the id, 403 \<open>forbidden\<close> when the note's owner pair is
  not the principal's, and otherwise 200 with the note, its title and content replaced
  by the supplied values and \<open>updatedAt\<close> set; the stored note is the returned one and
  no other id is touched. In variant A, for every principal and every id, update answers
  200 with \<open>null\<close>, leaving the store unchanged, when no note has the id and the
  caller's owner id; otherwise it answers 200 with the note, its title and content
  replaced by the supplied values, \<open>updatedAt\<close> is not set, the stored note is the
  returned one and no other id is touched.
\<close>

theorem update_note_outcomes:
  "(findById k (Notes s) = None \<longrightarrow>
      update_note_B now p (Some k) t c s = (Reply 404 (Error ''not found''), s)) \<and>
   (\<forall>n. findById k (Notes s) = Some n \<and> owner n \<noteq> p \<longrightarrow>
      update_note_B now p (Some k) t c s = (Reply 403 (Error ''forbidden''), s)) \<and>
   (\<forall>n. findById k (Notes s) = Some n \<and> owner n = p \<longrightarrow>
      fst (update_note_B now p (Some k) t c s) =
        Reply 200 (NoteDoc (n\<lparr>title := t, content := c, updatedAt := Some now\<rparr>)) \<and>
      findById k (Notes (snd (update_note_B now p (Some k) t c s))) =
        Some (n\<lparr>title := t, content := c, updatedAt := Some now\<rparr>) \<and>
      (\<forall>j. j \<noteq> k \<longrightarrow> findById j (Notes (snd (update_note_B now p (Some k) t c s))) =
                        findById j (Notes s)) \<and>
      map note_id (Notes (snd (update_note_B now p (Some k) t c s))) = map note_id (Notes s) \<and>
      Users (snd (update_note_B now p (Some k) t c s)) = Users s \<and>
      Drawers (snd (update_note_B now p (Some k) t c s)) = Drawers s \<and>
      next_oid (snd (update_note_B now p (Some k) t c s)) = next_oid s) \<and>
   (find (\<lambda>n. note_id n = k \<and> ownerId n = pid p) (Notes s) = None \<longrightarrow>
      update_note_A E p (Some k) t c s = (Reply 200 Null, s)) \<and>
   (\<forall>n. find (\<lambda>n. note_id n = k \<and> ownerId n = pid p) (Notes s) = Some n \<longrightarrow>
      fst (update_note_A E p (Some k) (Some a) (Some b) s) =
        Reply 200 (NoteDoc (n\<lparr>title := Some a, content := Some b\<rparr>)) \<and>
      find (\<lambda>n. note_id n = k \<and> ownerId n = pid p)
           (Notes (snd (update_note_A E p (Some k) (Some a) (Some b) s))) =
        Some (n\<lparr>title := Some a, content := Some b\<rparr>) \<and>
      (\<forall>j. j \<noteq> k \<longrightarrow> findById j (Notes (snd (update_note_A E p (Some k) (Some a) (Some b) s))) =
                        findById j (Notes s)) \<and>
      map note_id (Notes (snd (update_note_A E p (Some k) (Some a) (Some b) s))) =
        map note_id (Notes s) \<and>
      Users (snd (update_note_A E p (Some k) (Some a) (Some b) s)) = Users s \<and>
      Drawers (snd (update_note_A E p (Some k) (Some a) (Some b) s)) = Drawers s \<and>
      next_oid (snd (update_note_A E p (Some k) (Some a) (Some b) s)) = next_oid s)"
proof -
  have B0: "update_note_B now p (Some k) t c s = (Reply 404 (Error ''not found''), s)"
    if "findById k (Notes s) = None"
    using that by (simp add: update_note_B_def)
  have B1: "update_note_B now p (Some k) t c s = (Reply 403 (Error ''forbidden''), s)"
    if "findById k (Notes s) = Some n" "owner n \<noteq> p" for n
    using that by (auto simp: update_note_B_def owner_eq)
  have B2: "fst (update_note_B now p (Some k) t c s) =
        Reply 200 (NoteDoc (n\<lparr>title := t, content := c, updatedAt := Some now\<rparr>)) \<and>
      findById k (Notes (snd (update_note_B now p (Some k) t c s))) =
        Some (n\<lparr>title := t, content := c, updatedAt := Some now\<rparr>) \<and>
      (\<forall>j. j \<noteq> k \<longrightarrow> findById j (Notes (snd (update_note_B now p (Some k) t c s))) =
                        findById j (Notes s)) \<and>
      map note_id (Notes (snd (update_note_B now p (Some k) t c s))) = map note_id (Notes s) \<and>
      Users (snd (update_note_B now p (Some k) t c s)) = Users s \<and>
      Drawers (snd (update_note_B now p (Some k) t c s)) = Drawers s \<and>
      next_oid (snd (update_note_B now p (Some k) t c s)) = next_oid s"
    if n: "findById k (Notes s) = Some n" and own: "owner n = p" for n
  proof -
    let ?n' = "n\<lparr>title := t, content := c, updatedAt := Some now\<rparr>"
    have id: "note_id n = k" using n by (simp add: findById_SomeD)
    have own2: "ownerId n = pid p" "ownerType n = ptype p" using own by (simp_all add: owner_eq)
    have r: "update_note_B now p (Some k) t c s =
        (Reply 200 (NoteDoc ?n'), s\<lparr>Notes := save ?n' (Notes s)\<rparr>)"
      using n own2 by (simp add: update_note_B_def Let_def)
    have f: "findById k (save ?n' (Notes s)) = Some ?n'"
      using n id by (simp add: findById_save)
    have o: "\<And>j. j \<noteq> k \<Longrightarrow> findById j (save ?n' (Notes s)) = findById j (Notes s)"
      using id by (simp add: findById_save_other)
    have m: "map note_id (save ?n' (Notes s)) = map note_id (Notes s)"
      by (rule save_map [OF n]) (simp_all add: id)
    show ?thesis by (simp add: r f o m)
  qed
  have A0: "update_note_A E p (Some k) t c s = (Reply 200 Null, s)"
    if "find (\<lambda>n. note_id n = k \<and> ownerId n = pid p) (Notes s) = None"
    using that by (simp add: update_note_A_def fou_none)
  have A2: "fst (update_note_A E p (Some k) (Some a) (Some b) s) =
        Reply 200 (NoteDoc (n\<lparr>title := Some a, content := Some b\<rparr>)) \<and>
      find (\<lambda>n. note_id n = k \<and> ownerId n = pid p)
           (Notes (snd (update_note_A E p (Some k) (Some a) (Some b) s))) =
        Some (n\<lparr>title := Some a, content := Some b\<rparr>) \<and>
      (\<forall>j. j \<noteq> k \<longrightarrow> findById j (Notes (snd (update_note_A E p (Some k) (Some a) (Some b) s))) =
                        findById j (Notes s)) \<and>
      map note_id (Notes (snd (update_note_A E p (Some k) (Some a) (Some b) s))) =
        map note_id (Notes s) \<and>
      Users (snd (update_note_A E p (Some k) (Some a) (Some b) s)) = Users s \<and>
      Drawers (snd (update_note_A E p (Some k) (Some a) (Some b) s)) = Drawers s \<and>
      next_oid (snd (update_note_A E p (Some k) (Some a) (Some b) s)) = next_oid s"
    if fnd: "find (\<lambda>n. note_id n = k \<and> ownerId n = pid p) (Notes s) = Some n" for n
  proof -
    let ?P = "\<lambda>n. note_id n = k \<and> ownerId n = pid p"
    let ?f = "\<lambda>n. n\<lparr>title := set_field E (Some a) (title n),
                      content := set_field E (Some b) (content n)\<rparr>"
    have f2: "?f n = n\<lparr>title := Some a, content := Some b\<rparr>"
      by (simp add: set_field_def)
    have s': "snd (update_note_A E p (Some k) (Some a) (Some b) s) =
        s\<lparr>Notes := snd (findOneAndUpdate ?P ?f (Notes s))\<rparr>"
      by (simp add: update_note_A_def split_beta)
    have 1: "fst (update_note_A E p (Some k) (Some a) (Some b) s) =
        Reply 200 (NoteDoc (n\<lparr>title := Some a, content := Some b\<rparr>))"
      using fou_some [OF fnd, of ?f] f2 by (simp add: update_note_A_def split_beta)
    have "find ?P (snd (findOneAndUpdate ?P ?f (Notes s))) = Some (?f n)"
      by (rule fou_find [OF _ fnd]) simp
    then have 2: "find ?P (Notes (snd (update_note_A E p (Some k) (Some a) (Some b) s))) =
        Some (n\<lparr>title := Some a, content := Some b\<rparr>)"
      using f2 by (simp add: s')
    have 3: "findById j (Notes (snd (update_note_A E p (Some k) (Some a) (Some b) s))) =
        findById j (Notes s)" if "j \<noteq> k" for j
      unfolding s' using fou_findById_other [of ?P k ?f j "Notes s"] that by simp
    have 4: "map note_id (Notes (snd (update_note_A E p (Some k) (Some a) (Some b) s))) =
        map note_id (Notes s)"
      unfolding s' by (simp add: fou_map)
    show ?thesis using 1 2 3 4 by (simp add: s')
  qed
  show ?thesis
    using B0 B1 B2 A0 A2 by blast
qed

theorem update_note_outcomes_witness:
  "update_note_B 60 team1 (Some 7) (Some ''t'') (Some ''c'') init_db =
     (Reply 404 (Error ''not found''), init_db) \<and>
   update_note_B 60 alice (Some 3) (Some ''t'') (Some ''c'') example_db =
     (Reply 403 (Error ''forbidden''), example_db) \<and>
   fst (update_note_B 60 alice (Some 2) (Some ''t'') (Some ''c'') example_db) =
     Reply 200 (NoteDoc \<lparr>note_id = 2, ownerType = UserT, ownerId = 0, title = Some ''t'',
                content = Some ''c'', createdAt = 30, updatedAt = Some 60\<rparr>) \<and>
   update_note_A example_env team1 (Some 7) (Some ''t'') (Some ''c'') init_db =
     (Reply 200 Null, init_db) \<and>
   fst (update_note_A example_env alice (Some 2) (Some ''t'') (Some ''c'') example_db) =
     Reply 200 (NoteDoc \<lparr>note_id = 2, ownerType = UserT, ownerId = 0, title = Some ''t'',
                content = Some ''c'', createdAt = 30, updatedAt = None\<rparr>)"
proof -
  have m0: "findById 7 (Notes init_db) = None" by code_simp
  have m1: "find (\<lambda>n. note_id n = 7 \<and> ownerId n = pid team1) (Notes init_db) = None"
    by code_simp
  have o1: "findById 3 (Notes example_db) =
      Some \<lparr>note_id = 3, ownerType = DrawerT, ownerId = 1, title = Some ''T'',
            content = Some [], createdAt = 40, updatedAt = None\<rparr>" by code_simp
  have o2: "owner \<lparr>note_id = 3, ownerType = DrawerT, ownerId = 1, title = Some ''T'',
            content = Some [], createdAt = 40, updatedAt = None\<rparr> \<noteq> alice"
    by (simp add: owner_def alice_def)
  have w1: "findById 2 (Notes example_db) =
      Some \<lparr>note_id = 2, ownerType = UserT, ownerId = 0, title = Some ''A'',
            content = Some ''B'', createdAt = 30, updatedAt = None\<rparr>" by code_simp
  have w2: "owner \<lparr>note_id = 2, ownerType = UserT, ownerId = 0, title = Some ''A'',
            content = Some ''B'', createdAt = 30, updatedAt = None\<rparr> = alice"
    by (simp add: owner_def alice_def)
  have w3: "find (\<lambda>n. note_id n = 2 \<and> ownerId n = pid alice) (Notes example_db) =
      Some \<lparr>note_id = 2, ownerType = UserT, ownerId = 0, title = Some ''A'',
            content = Some ''B'', createdAt = 30, updatedAt = None\<rparr>" by code_simp
  show ?thesis
    using update_note_outcomes [of 7 init_db 60 team1 "Some ''t''" "Some ''c''" example_env]
      update_note_outcomes [of 3 example_db 60 alice "Some ''t''" "Some ''c''" example_env]
      update_note_outcomes [of 2 example_db 60 alice "Some ''t''" "Some ''c''" example_env "''t''" "''c''"]
      m0 m1 o1 o2 w1 w2 w3
    by simp
qed

text \<open>Against C2 as stated: in variant A, on a reachable store, an update of an id no
  note has and an update of another owner's note are answered 200 with \<open>null\<close>, and
  a successful update leaves \<open>updatedAt\<close> unset.\<close>

theorem update_A_never_404_403:
  "run (handle_A example_env) example_requests init_db = example_db \<and>
   findById 7 (Notes example_db) = None \<and>
   fst (update_note_A example_env alice (Some 7) (Some ''t'') (Some ''c'') example_db) =
     Reply 200 Null \<and>
   map owner (Notes example_db) = [alice, team1, alice] \<and>
   map note_id (Notes example_db) = [2, 3, 4] \<and>
   fst (update_note_A example_env alice (Some 3) (Some ''t'') (Some ''c'') example_db) =
     Reply 200 Null \<and>
   fst (update_note_A example_env alice (Some 2) (Some ''t'') (Some ''c'') example_db) =
     Reply 200 (NoteDoc \<lparr>note_id = 2, ownerType = UserT, ownerId = 0, title = Some ''t'',
                content = Some ''c'', createdAt = 30, updatedAt = None\<rparr>)"
proof -
  have a: "findById 7 (Notes example_db) = None" by code_simp
  have b: "fst (update_note_A example_env alice (Some 7) (Some ''t'') (Some ''c'') example_db) =
     Reply 200 Null" by code_simp
  have c: "map owner (Notes example_db) = [alice, team1, alice]" by code_simp
  have d: "map note_id (Notes example_db) = [2, 3, 4]" by code_simp
  have e: "fst (update_note_A example_env alice (Some 3) (Some ''t'') (Some ''c'') example_db) =
     Reply 200 Null" by code_simp
  have f: "fst (update_note_A example_env alice (Some 2) (Some ''t'') (Some ''c'') example_db) =
     Reply 200 (NoteDoc \<lparr>note_id = 2, ownerType = UserT, ownerId = 0, title = Some ''t'',
                content = Some ''c'', createdAt = 30, updatedAt = None\<rparr>)" by code_simp
  show ?thesis using a b c d e f example_run_A by simp
qed

section \<open>The owner pair of a note never changes\<close>

text \<open>
  C6. Take a store reached by any run from the empty store, a note in it, and any
  further run of requests. A note with the same identifier in the resulting store has
  the same \<open>ownerType\<close> and the same \<open>ownerId\<close>. This holds in both variants.
\<close>
theorem owner_pair_never_changes:
  assumes "sA = run (handle_A E) reqs0 init_db" and "nA \<in> set (Notes sA)"
    and "nA' \<in> set (Notes (run (handle_A E) reqs sA))" and "note_id nA' = note_id nA"
    and "sB = run (handle_B E) reqs1 init_db" and "nB \<in> set (Notes sB)"
    and "nB' \<in> set (Notes (run (handle_B E) reqs' sB))" and "note_id nB' = note_id nB"
  shows "ownerType nA' = ownerType nA \<and> ownerId nA' = ownerId nA \<and>
         ownerType nB' = ownerType nB \<and> ownerId nB' = ownerId nB"
proof -
  have wfA: "wf_db sA" unfolding assms(1) by (rule wf_run_A)
  have "keeps_owners sA (run (handle_A E) reqs sA)"
    using run_invariant [of "handle_A E", OF step_handle_A wfA] by simp
  from owner_kept [OF wfA this assms(2,3,4)] have A: "owner nA' = owner nA" .
  have wfB: "wf_db sB" unfolding assms(5) by (rule wf_run_B)
  have "keeps_owners sB (run (handle_B E) reqs' sB)"
    using run_invariant [of "handle_B E", OF step_handle_B wfB] by simp
  from owner_kept [OF wfB this assms(6,7,8)] have B: "owner nB' = owner nB" .
  from A B show ?thesis by (simp add: owner_def)
qed

theorem owner_pair_never_changes_witness:
  "\<lparr>note_id = 2, ownerType = UserT, ownerId = 0, title = Some ''x'',
     content = None, createdAt = 30, updatedAt = None\<rparr>
     \<in> set (Notes (run (handle_A example_env)
           [(60, UpdateNote (Some alice_token) (Some 2) (Some ''x'') None),
            (70, DeleteNote (Some alice_token) (Some 4))] example_db)) \<and>
   \<lparr>note_id = 2, ownerType = UserT, ownerId = 0, title = Some ''x'',
     content = None, createdAt = 30, updatedAt = Some 60\<rparr>
     \<in> set (Notes (run (handle_B example_env)
           [(60, UpdateNote (Some alice_token) (Some 2) (Some ''x'') None),
            (70, DeleteNote (Some alice_token) (Some 4))] example_db)) \<and>
   ownerType (\<lparr>note_id = 2, ownerType = UserT, ownerId = 0, title = Some ''A'',
                content = Some ''B'', createdAt = 30, updatedAt = None\<rparr>) = UserT \<and>
   ownerId (\<lparr>note_id = 2, ownerType = UserT, ownerId = 0, title = Some ''A'',
                content = Some ''B'', createdAt = 30, updatedAt = None\<rparr>) = 0"
proof -
  let ?n = "\<lparr>note_id = 2, ownerType = UserT, ownerId = 0, title = Some ''A'',
             content = Some ''B'', createdAt = 30, updatedAt = None\<rparr>"
  let ?reqs = "[(60, UpdateNote (Some alice_token) (Some 2) (Some ''x'') None),
                (70, DeleteNote (Some alice_token) (Some 4))]"
  have a1: "example_db = run (handle_A example_env) example_requests init_db" by code_simp
  have a2: "?n \<in> set (Notes example_db)" by code_simp
  have a3: "\<lparr>note_id = 2, ownerType = UserT, ownerId = 0, title = Some ''x'',
             content = None, createdAt = 30, updatedAt = None\<rparr>
            \<in> set (Notes (run (handle_A example_env) ?reqs example_db))" by code_simp
  have b1: "example_db = run (handle_B example_env) example_requests init_db" by code_simp
  have b3: "\<lparr>note_id = 2, ownerType = UserT, ownerId = 0, title = Some ''x'',
             content = None, createdAt = 30, updatedAt = Some 60\<rparr>
            \<in> set (Notes (run (handle_B example_env) ?reqs example_db))" by code_simp
  show ?thesis
    using owner_pair_never_changes [OF a1 a2 a3 _ b1 a2 b3] a3 b3 by simp
qed

section \<open>Isolation of owners\<close>

lemma find_distinct_id:
  "distinct (map note_id ns) \<Longrightarrow> n \<in> set ns \<Longrightarrow> find (\<lambda>m. note_id m = note_id n) ns = Some n"
  by (induction ns) (auto simp: image_iff)

lemma findById_member: "wf_db s \<Longrightarrow> n \<in> set (Notes s) \<Longrightarrow> findById (note_id n) (Notes s) = Some n"
  by (simp add: findById_def find_distinct_id wf_db_iff)

lemma find_SomeD: "find P ns = Some n \<Longrightarrow> P n \<and> n \<in> set ns"
  by (induction ns) (auto split: if_splits)

lemma deleteOne_filter:
  "find P ns = Some n \<Longrightarrow> \<not> Q n \<Longrightarrow> filter Q (deleteOne P ns) = filter Q ns"
  by (induction ns) (auto split: if_splits)

lemma fou_filter:
  "find P ns = Some n \<Longrightarrow> \<not> Q n \<Longrightarrow> \<not> Q (f n) \<Longrightarrow>
   filter Q (snd (findOneAndUpdate P f ns)) = filter Q ns"
  by (induction ns) (auto simp: split_beta split: if_splits)

lemma save_filter:
  "findById k ns = Some n \<Longrightarrow> note_id n' = k \<Longrightarrow> \<not> Q n \<Longrightarrow> \<not> Q n' \<Longrightarrow>
   filter Q (save n' ns) = filter Q ns"
  unfolding findById_def by (induction ns) (auto split: if_splits)

lemma foreign_not_found_A:
  assumes wf: "wf_db s" and n: "n \<in> set (Notes s)" and ne: "ownerId n \<noteq> pid p"
  shows "find (\<lambda>m. note_id m = note_id n \<and> ownerId m = pid p) (Notes s) = None"
proof (rule ccontr)
  assume "find (\<lambda>m. note_id m = note_id n \<and> ownerId m = pid p) (Notes s) \<noteq> None"
  then obtain m where "find (\<lambda>m. note_id m = note_id n \<and> ownerId m = pid p) (Notes s) = Some m"
    by auto
  then have m: "m \<in> set (Notes s)" "note_id m = note_id n" "ownerId m = pid p"
    by (auto dest: find_SomeD)
  from wf have "distinct (map note_id (Notes s))" by (simp add: wf_db_iff)
  with m n have "m = n" by (auto simp: distinct_map inj_on_def)
  with m ne show False by simp
qed

lemma auth_Inl: "auth E now b = Inl r \<Longrightarrow> notes_in r = []"
  by (auto simp: auth_def split: option.splits)

lemma authMiddleware_Inl: "authMiddleware E now b = Inl r \<Longrightarrow> notes_in r = []"
  by (auto simp: authMiddleware_def split: option.splits)

lemma auth_Inr:
  "auth E now b = Inr user \<Longrightarrow>
   (case b of None \<Rightarrow> None | Some t \<Rightarrow> jwt_verify (JWT_SECRET E) now t) = Some user"
  by (auto simp: auth_def split: option.splits)

lemma authMiddleware_Inr:
  "authMiddleware E now b = Inr user \<Longrightarrow>
   (case b of None \<Rightarrow> None | Some t \<Rightarrow> jwt_verify (JWT_SECRET E) now t) = Some user"
  by (auto simp: authMiddleware_def split: option.splits)

lemma register_A_notes:
  "Notes (snd (register_A E now e p s)) = Notes s \<and> notes_in (fst (register_A E now e p s)) = []"
  by (simp add: register_A_def Let_def split: option.splits)

lemma create_drawer_A_notes:
  "Notes (snd (create_drawer_A E now d p s)) = Notes s \<and>
   notes_in (fst (create_drawer_A E now d p s)) = []"
  by (simp add: create_drawer_A_def Let_def split: option.splits)

lemma login_A_notes:
  "Notes (snd (login_A E now e p s)) = Notes s \<and> notes_in (fst (login_A E now e p s)) = []"
  by (simp add: login_A_def split: option.splits)

lemma login_drawer_A_notes:
  "Notes (snd (login_drawer_A E now d p s)) = Notes s \<and>
   notes_in (fst (login_drawer_A E now d p s)) = []"
  by (simp add: login_drawer_A_def split: option.splits)

lemma register_B_notes:
  "Notes (snd (register_B E now e u p s)) = Notes s \<and>
   notes_in (fst (register_B E now e u p s)) = []"
  by (simp add: register_B_def Let_def split: option.splits)

lemma create_drawer_B_notes:
  "Notes (snd (create_drawer_B E now d p s)) = Notes s \<and>
   notes_in (fst (create_drawer_B E now d p s)) = []"
  by (simp add: create_drawer_B_def Let_def split: option.splits)

lemma login_B_notes:
  "Notes (snd (login_B E now e p s)) = Notes s \<and> notes_in (fst (login_B E now e p s)) = []"
  by (simp add: login_B_def split: option.splits)

lemma login_drawer_B_notes:
  "Notes (snd (login_drawer_B E now d p s)) = Notes s \<and>
   notes_in (fst (login_drawer_B E now d p s)) = []"
  by (simp add: login_drawer_B_def split: option.splits)

lemma get_notes_A_iso:
  "snd (get_notes_A user s) = s \<and>
   (\<forall>m \<in> set (notes_in (fst (get_notes_A user s))). ownerId m = pid user)"
  by (simp add: get_notes_A_def)

lemma create_note_A_iso:
  "filter (\<lambda>n. ownerId n \<noteq> pid user) (Notes (snd (create_note_A now user t c s))) =
     filter (\<lambda>n. ownerId n \<noteq> pid user) (Notes s) \<and>
   (\<forall>m \<in> set (notes_in (fst (create_note_A now user t c s))). ownerId m = pid user)"
  by (simp add: create_note_A_def Let_def)

lemma update_note_A_iso:
  "filter (\<lambda>n. ownerId n \<noteq> pid user) (Notes (snd (update_note_A E user k t c s))) =
     filter (\<lambda>n. ownerId n \<noteq> pid user) (Notes s) \<and>
   (\<forall>m \<in> set (notes_in (fst (update_note_A E user k t c s))). ownerId m = pid user)"
proof (cases k)
  case None
  then show ?thesis by (simp add: update_note_A_def)
next
  case (Some i)
  let ?P = "\<lambda>n. note_id n = i \<and> ownerId n = pid user"
  let ?f = "\<lambda>n. n\<lparr>title := set_field E t (title n), content := set_field E c (content n)\<rparr>"
  show ?thesis
  proof (cases "find ?P (Notes s)")
    case None
    then show ?thesis using Some by (simp add: update_note_A_def fou_none)
  next
    case (Some n)
    then have own: "ownerId n = pid user" by (auto dest: find_SomeD)
    have 1: "filter (\<lambda>n. ownerId n \<noteq> pid user) (snd (findOneAndUpdate ?P ?f (Notes s))) =
        filter (\<lambda>n. ownerId n \<noteq> pid user) (Notes s)"
      by (rule fou_filter [OF Some]) (simp_all add: own)
    have 2: "fst (findOneAndUpdate ?P ?f (Notes s)) = Some (?f n)"
      by (rule fou_some [OF Some])
    show ?thesis using 1 2 own \<open>k = Some i\<close>
      by (simp add: update_note_A_def split_beta)
  qed
qed

lemma delete_note_A_iso:
  "filter (\<lambda>n. ownerId n \<noteq> pid user) (Notes (snd (delete_note_A user k s))) =
     filter (\<lambda>n. ownerId n \<noteq> pid user) (Notes s) \<and>
   (\<forall>m \<in> set (notes_in (fst (delete_note_A user k s))). ownerId m = pid user)"
proof (cases k)
  case None
  then show ?thesis by (simp add: delete_note_A_def)
next
  case (Some i)
  let ?P = "\<lambda>n. note_id n = i \<and> ownerId n = pid user"
  show ?thesis
  proof (cases "find ?P (Notes s)")
    case None
    then show ?thesis using Some by (simp add: delete_note_A_def deleteOne_none)
  next
    case (Some n)
    then have own: "ownerId n = pid user" by (auto dest: find_SomeD)
    have "filter (\<lambda>n. ownerId n \<noteq> pid user) (deleteOne ?P (Notes s)) =
        filter (\<lambda>n. ownerId n \<noteq> pid user) (Notes s)"
      by (rule deleteOne_filter [OF Some]) (simp add: own)
    then show ?thesis using \<open>k = Some i\<close> by (simp add: delete_note_A_def)
  qed
qed

lemma get_notes_B_iso:
  "snd (get_notes_B user s) = s \<and>
   (\<forall>m \<in> set (notes_in (fst (get_notes_B user s))). owner m = user)"
  by (simp add: get_notes_B_def sort_createdAt_desc_def owner_eq)

lemma create_note_B_iso:
  "filter (\<lambda>n. owner n \<noteq> user) (Notes (snd (create_note_B now user t c s))) =
     filter (\<lambda>n. owner n \<noteq> user) (Notes s) \<and>
   (\<forall>m \<in> set (notes_in (fst (create_note_B now user t c s))). owner m = user)"
  by (simp add: create_note_B_def Let_def owner_def principal_eta)

lemma update_note_B_iso:
  "filter (\<lambda>n. owner n \<noteq> user) (Notes (snd (update_note_B now user k t c s))) =
     filter (\<lambda>n. owner n \<noteq> user) (Notes s) \<and>
   (\<forall>m \<in> set (notes_in (fst (update_note_B now user k t c s))). owner m = user)"
proof (cases "\<exists>i n. k = Some i \<and> findById i (Notes s) = Some n \<and>
                    \<not> (ownerId n \<noteq> pid user \<or> ownerType n \<noteq> ptype user)")
  case True
  then obtain i n where k: "k = Some i" and n: "findById i (Notes s) = Some n"
    and own: "ownerId n = pid user" "ownerType n = ptype user" by auto
  let ?n' = "n\<lparr>title := t, content := c, updatedAt := Some now\<rparr>"
  have r: "update_note_B now user k t c s = (Reply 200 (NoteDoc ?n'), s\<lparr>Notes := save ?n' (Notes s)\<rparr>)"
    using k n own by (simp add: update_note_B_def Let_def)
  have id: "note_id ?n' = i" using n by (simp add: findById_SomeD)
  have o: "owner n = user" "owner ?n' = user" using own by (simp_all add: owner_eq)
  have "filter (\<lambda>n. owner n \<noteq> user) (save ?n' (Notes s)) = filter (\<lambda>n. owner n \<noteq> user) (Notes s)"
    by (rule save_filter [OF n id]) (simp_all add: o)
  then show ?thesis using o by (simp add: r)
next
  case False
  then have "snd (update_note_B now user k t c s) = s \<and>
      notes_in (fst (update_note_B now user k t c s)) = []"
    by (auto simp: update_note_B_def Let_def split: option.splits)
  then show ?thesis by simp
qed

lemma delete_note_B_iso:
  "filter (\<lambda>n. owner n \<noteq> user) (Notes (snd (delete_note_B user k s))) =
     filter (\<lambda>n. owner n \<noteq> user) (Notes s) \<and>
   (\<forall>m \<in> set (notes_in (fst (delete_note_B user k s))). owner m = user)"
proof (cases "\<exists>i n. k = Some i \<and> findById i (Notes s) = Some n \<and>
                    \<not> (ownerId n \<noteq> pid user \<or> ownerType n \<noteq> ptype user)")
  case True
  then obtain i n where k: "k = Some i" and n: "findById i (Notes s) = Some n"
    and own: "ownerId n = pid user" "ownerType n = ptype user" by auto
  have r: "delete_note_B user k s =
      (Reply 200 Success, s\<lparr>Notes := deleteOne (\<lambda>n. note_id n = i) (Notes s)\<rparr>)"
    using k n own by (simp add: delete_note_B_def)
  have o: "owner n = user" using own by (simp add: owner_eq)
  have "filter (\<lambda>n. owner n \<noteq> user) (deleteOne (\<lambda>n. note_id n = i) (Notes s)) =
      filter (\<lambda>n. owner n \<noteq> user) (Notes s)"
    by (rule deleteOne_filter [OF n [unfolded findById_def]]) (simp add: o)
  then show ?thesis by (simp add: r)
next
  case False
  then have "snd (delete_note_B user k s) = s \<and> notes_in (fst (delete_note_B user k s)) = []"
    by (auto simp: delete_note_B_def split: option.splits)
  then show ?thesis by simp
qed

lemma isolation_A:
  "filter (\<lambda>n. Some (ownerId n) \<noteq> map_option pid (caller_of E now req)) (Notes (snd (handle_A E now req s))) =
     filter (\<lambda>n. Some (ownerId n) \<noteq> map_option pid (caller_of E now req)) (Notes s) \<and>
   (\<forall>m \<in> set (notes_in (fst (handle_A E now req s))). Some (ownerId m) = map_option pid (caller_of E now req))"
proof (cases req)
  case (Register e u p)
  then show ?thesis by (simp add: register_A_notes caller_of_def)
next
  case (CreateDrawer d p)
  then show ?thesis by (simp add: create_drawer_A_notes caller_of_def)
next
  case (Login e p)
  then show ?thesis by (simp add: login_A_notes caller_of_def)
next
  case (LoginDrawer d p)
  then show ?thesis by (simp add: login_drawer_A_notes caller_of_def)
next
  case (GetNotes b)
  show ?thesis
  proof (cases "auth E now b")
    case (Inl r)
    with GetNotes show ?thesis by (simp add: auth_Inl)
  next
    case (Inr user)
    then have "caller_of E now req = Some user"
      using GetNotes by (simp add: caller_of_def auth_Inr)
    with GetNotes Inr show ?thesis using get_notes_A_iso [of user s] by simp
  qed
next
  case (CreateNote b t c)
  show ?thesis
  proof (cases "auth E now b")
    case (Inl r)
    with CreateNote show ?thesis by (simp add: auth_Inl)
  next
    case (Inr user)
    then have "caller_of E now req = Some user"
      using CreateNote by (simp add: caller_of_def auth_Inr)
    with CreateNote Inr show ?thesis using create_note_A_iso [of user now t c s] by simp
  qed
next
  case (UpdateNote b k t c)
  show ?thesis
  proof (cases "auth E now b")
    case (Inl r)
    with UpdateNote show ?thesis by (simp add: auth_Inl)
  next
    case (Inr user)
    then have "caller_of E now req = Some user"
      using UpdateNote by (simp add: caller_of_def auth_Inr)
    with UpdateNote Inr show ?thesis using update_note_A_iso [of user E k t c s] by simp
  qed
next
  case (DeleteNote b k)
  show ?thesis
  proof (cases "auth E now b")
    case (Inl r)
    with DeleteNote show ?thesis by (simp add: auth_Inl)
  next
    case (Inr user)
    then have "caller_of E now req = Some user"
      using DeleteNote by (simp add: caller_of_def auth_Inr)
    with DeleteNote Inr show ?thesis using delete_note_A_iso [of user k s] by simp
  qed
qed

lemma isolation_B:
  "filter (\<lambda>n. Some (owner n) \<noteq> caller_of E now req) (Notes (snd (handle_B E now req s))) =
     filter (\<lambda>n. Some (owner n) \<noteq> caller_of E now req) (Notes s) \<and>
   (\<forall>m \<in> set (notes_in (fst (handle_B E now req s))). Some (owner m) = caller_of E now req)"
proof (cases req)
  case (Register e u p)
  then show ?thesis by (simp add: register_B_notes caller_of_def)
next
  case (CreateDrawer d p)
  then show ?thesis by (simp add: create_drawer_B_notes caller_of_def)
next
  case (Login e p)
  then show ?thesis by (simp add: login_B_notes caller_of_def)
next
  case (LoginDrawer d p)
  then show ?thesis by (simp add: login_drawer_B_notes caller_of_def)
next
  case (GetNotes b)
  show ?thesis
  proof (cases "authMiddleware E now b")
    case (Inl r)
    with GetNotes show ?thesis by (simp add: authMiddleware_Inl)
  next
    case (Inr user)
    then have "caller_of E now req = Some user"
      using GetNotes by (simp add: caller_of_def authMiddleware_Inr)
    with GetNotes Inr show ?thesis using get_notes_B_iso [of user s] by simp
  qed
next
  case (CreateNote b t c)
  show ?thesis
  proof (cases "authMiddleware E now b")
    case (Inl r)
    with CreateNote show ?thesis by (simp add: authMiddleware_Inl)
  next
    case (Inr user)
    then have "caller_of E now req = Some user"
      using CreateNote by (simp add: caller_of_def authMiddleware_Inr)
    with CreateNote Inr show ?thesis using create_note_B_iso [of user now t c s] by simp
  qed
next
  case (UpdateNote b k t c)
  show ?thesis
  proof (cases "authMiddleware E now b")
    case (Inl r)
    with UpdateNote show ?thesis by (simp add: authMiddleware_Inl)
  next
    case (Inr user)
    then have "caller_of E now req = Some user"
      using UpdateNote by (simp add: caller_of_def authMiddleware_Inr)
    with UpdateNote Inr show ?thesis using update_note_B_iso [of user now k t c s] by simp
  qed
next
  case (DeleteNote b k)
  show ?thesis
  proof (cases "authMiddleware E now b")
    case (Inl r)
    with DeleteNote show ?thesis by (simp add: authMiddleware_Inl)
  next
    case (Inr user)
    then have "caller_of E now req = Some user"
      using DeleteNote by (simp add: caller_of_def authMiddleware_Inr)
    with DeleteNote Inr show ?thesis using delete_note_B_iso [of user k s] by simp
  qed
qed

section \<open>Notes of other owners\<close>

text \<open>
  C1, as amended. On every store reached by a run from the empty store: in variant B,
  for every principal and every note whose owner pair is not the principal's, update and
  delete of that note answer 403 \<open>forbidden\<close> and leave the store as it is; in variant
  A, for every principal and every note whose \<open>ownerId\<close> is not the principal's id, they
  answer 200, with \<open>null\<close> for update and \<open>{ success: true }\<close> for delete, and leave
  the store as it is. And on every store, whatever the request: in variant B the notes
  whose owner pair is not the payload of the verified token the request presents are the
  same before and after, and every note in the reply is owned by that pair; in variant A
  the same holds with the \<open>ownerId\<close> of the note and the id of the payload.
\<close>

theorem foreign_notes_protected:
  assumes "sA = run (handle_A E) reqsA init_db" and "sB = run (handle_B E) reqsB init_db"
  shows "(\<forall>n \<in> set (Notes sB). owner n \<noteq> q \<longrightarrow>
            update_note_B now q (Some (note_id n)) t c sB = (Reply 403 (Error ''forbidden''), sB) \<and>
            delete_note_B q (Some (note_id n)) sB = (Reply 403 (Error ''forbidden''), sB)) \<and>
         (\<forall>n \<in> set (Notes sA). ownerId n \<noteq> pid p \<longrightarrow>
            update_note_A E p (Some (note_id n)) t c sA = (Reply 200 Null, sA) \<and>
            delete_note_A p (Some (note_id n)) sA = (Reply 200 Success, sA)) \<and>
         (\<forall>req. filter (\<lambda>n. Some (owner n) \<noteq> caller_of E now req)
                    (Notes (snd (handle_B E now req s))) =
                  filter (\<lambda>n. Some (owner n) \<noteq> caller_of E now req) (Notes s) \<and>
                (\<forall>m \<in> set (notes_in (fst (handle_B E now req s))).
                    Some (owner m) = caller_of E now req)) \<and>
         (\<forall>req. filter (\<lambda>n. Some (ownerId n) \<noteq> map_option pid (caller_of E now req))
                    (Notes (snd (handle_A E now req s))) =
                  filter (\<lambda>n. Some (ownerId n) \<noteq> map_option pid (caller_of E now req)) (Notes s) \<and>
                (\<forall>m \<in> set (notes_in (fst (handle_A E now req s))).
                    Some (ownerId m) = map_option pid (caller_of E now req)))"
proof -
  have wfA: "wf_db sA" unfolding assms(1) by (rule wf_run_A)
  have wfB: "wf_db sB" unfolding assms(2) by (rule wf_run_B)
  have B: "update_note_B now q (Some (note_id n)) t c sB = (Reply 403 (Error ''forbidden''), sB) \<and>
           delete_note_B q (Some (note_id n)) sB = (Reply 403 (Error ''forbidden''), sB)"
    if n: "n \<in> set (Notes sB)" and ne: "owner n \<noteq> q" for n
  proof -
    have f: "findById (note_id n) (Notes sB) = Some n"
      using wfB n by (rule findById_member)
    have "ownerId n \<noteq> pid q \<or> ownerType n \<noteq> ptype q"
      using ne by (auto simp: owner_eq)
    with f show ?thesis by (simp add: update_note_B_def delete_note_B_def)
  qed
  have A: "update_note_A E p (Some (note_id n)) t c sA = (Reply 200 Null, sA) \<and>
           delete_note_A p (Some (note_id n)) sA = (Reply 200 Success, sA)"
    if n: "n \<in> set (Notes sA)" and ne: "ownerId n \<noteq> pid p" for n
  proof -
    have "find (\<lambda>m. note_id m = note_id n \<and> ownerId m = pid p) (Notes sA) = None"
      using wfA n ne by (rule foreign_not_found_A)
    then show ?thesis
      by (simp add: update_note_A_def delete_note_A_def fou_none deleteOne_none)
  qed
  show ?thesis
    using A B isolation_A [of E now _ s] isolation_B [of E now _ s] by blast
qed

theorem foreign_notes_protected_witness:
  "update_note_B 60 alice (Some 3) (Some ''x'') (Some ''y'') example_db =
     (Reply 403 (Error ''forbidden''), example_db) \<and>
   delete_note_B alice (Some 3) example_db = (Reply 403 (Error ''forbidden''), example_db) \<and>
   update_note_A example_env alice (Some 3) (Some ''x'') (Some ''y'') example_db =
     (Reply 200 Null, example_db) \<and>
   delete_note_A alice (Some 3) example_db = (Reply 200 Success, example_db) \<and>
   filter (\<lambda>n. Some (owner n) \<noteq> Some team1)
     (Notes (snd (handle_B example_env 60 (DeleteNote (Some team1_token) (Some 2)) example_db))) =
   filter (\<lambda>n. Some (owner n) \<noteq> Some team1) (Notes example_db) \<and>
   filter (\<lambda>n. Some (ownerId n) \<noteq> Some 1)
     (Notes (snd (handle_A example_env 60 (DeleteNote (Some team1_token) (Some 2)) example_db))) =
   filter (\<lambda>n. Some (ownerId n) \<noteq> Some 1) (Notes example_db)"
proof -
  let ?n = "\<lparr>note_id = 3, ownerType = DrawerT, ownerId = 1, title = Some ''T'',
             content = Some [], createdAt = 40, updatedAt = None\<rparr>"
  let ?req = "DeleteNote (Some team1_token) (Some 2)"
  have a1: "example_db = run (handle_A example_env) example_requests init_db" by code_simp
  have b1: "example_db = run (handle_B example_env) example_requests init_db" by code_simp
  have n: "?n \<in> set (Notes example_db)" by code_simp
  have neB: "owner ?n \<noteq> alice" by (simp add: owner_def alice_def)
  have neA: "ownerId ?n \<noteq> pid alice" by (simp add: alice_def)
  have c: "caller_of example_env 60 ?req = Some team1" by code_simp
  have pt: "pid team1 = 1" by (simp add: team1_def)
  note T = foreign_notes_protected [OF a1 b1, of alice 60 "Some ''x''" "Some ''y''" alice example_db]
  from T n neB have 1: "update_note_B 60 alice (Some (note_id ?n)) (Some ''x'') (Some ''y'') example_db =
       (Reply 403 (Error ''forbidden''), example_db) \<and>
     delete_note_B alice (Some (note_id ?n)) example_db = (Reply 403 (Error ''forbidden''), example_db)"
    by blast
  from T n neA have 2: "update_note_A example_env alice (Some (note_id ?n)) (Some ''x'') (Some ''y'') example_db =
       (Reply 200 Null, example_db) \<and>
     delete_note_A alice (Some (note_id ?n)) example_db = (Reply 200 Success, example_db)"
    by blast
  from T have 3: "filter (\<lambda>n. Some (owner n) \<noteq> caller_of example_env 60 ?req)
       (Notes (snd (handle_B example_env 60 ?req example_db))) =
     filter (\<lambda>n. Some (owner n) \<noteq> caller_of example_env 60 ?req) (Notes example_db)"
    by blast
  from T have 4: "filter (\<lambda>n. Some (ownerId n) \<noteq> map_option pid (caller_of example_env 60 ?req))
       (Notes (snd (handle_A example_env 60 ?req example_db))) =
     filter (\<lambda>n. Some (ownerId n) \<noteq> map_option pid (caller_of example_env 60 ?req)) (Notes example_db)"
    by blast
  show ?thesis using 1 2 3 4 by (simp add: c pt)
qed

text \<open>Against C1 as stated, in variant A on a reachable store. Update and delete of a
  note of another owner are not answered with \<open>Forbidden\<close>. And a caller whose verified
  payload has the drawer's id under the other type, which is not the owner pair of the
  drawer's note, rewrites that note by update and removes it by delete.\<close>

theorem foreign_update_delete_A_not_forbidden:
  "run (handle_A example_env) example_requests init_db = example_db \<and>
   map note_id (Notes example_db) = [2, 3, 4] \<and>
   map owner (Notes example_db) = [alice, team1, alice] \<and> team1 \<noteq> alice \<and>
   fst (update_note_A example_env alice (Some 3) (Some ''x'') (Some ''y'') example_db) =
     Reply 200 Null \<and>
   fst (delete_note_A alice (Some 3) example_db) = Reply 200 Success \<and>
   fst (update_note_A example_env alice (Some 3) (Some ''x'') (Some ''y'') example_db) \<noteq>
     Reply 403 (Error ''forbidden'') \<and>
   fst (delete_note_A alice (Some 3) example_db) \<noteq> Reply 403 (Error ''forbidden'') \<and>
   caller_of example_env 60 (DeleteNote (Some forged_token) (Some 3)) =
     Some \<lparr>ptype = UserT, pid = 1\<rparr> \<and>
   \<lparr>ptype = UserT, pid = 1\<rparr> \<noteq> team1 \<and>
   findById 3 (Notes (snd (handle_A example_env 60
       (UpdateNote (Some forged_token) (Some 3) (Some ''x'') (Some ''y'')) example_db))) =
     Some \<lparr>note_id = 3, ownerType = DrawerT, ownerId = 1, title = Some ''x'',
           content = Some ''y'', createdAt = 40, updatedAt = None\<rparr> \<and>
   map note_id (Notes (snd (handle_A example_env 60
       (DeleteNote (Some forged_token) (Some 3)) example_db))) = [2, 4]"
proof -
  have b: "map note_id (Notes example_db) = [2, 3, 4]" by code_simp
  have c: "map owner (Notes example_db) = [alice, team1, alice]" by code_simp
  have d: "team1 \<noteq> alice" by (simp add: team1_def alice_def)
  have e: "fst (update_note_A example_env alice (Some 3) (Some ''x'') (Some ''y'') example_db) =
     Reply 200 Null" by code_simp
  have f: "fst (delete_note_A alice (Some 3) example_db) = Reply 200 Success" by code_simp
  have g: "caller_of example_env 60 (DeleteNote (Some forged_token) (Some 3)) =
     Some \<lparr>ptype = UserT, pid = 1\<rparr>" by code_simp
  have h: "\<lparr>ptype = UserT, pid = 1\<rparr> \<noteq> team1" by (simp add: team1_def)
  have i: "findById 3 (Notes (snd (handle_A example_env 60
       (UpdateNote (Some forged_token) (Some 3) (Some ''x'') (Some ''y'')) example_db))) =
     Some \<lparr>note_id = 3, ownerType = DrawerT, ownerId = 1, title = Some ''x'',
           content = Some ''y'', createdAt = 40, updatedAt = None\<rparr>" by code_simp
  have j: "map note_id (Notes (snd (handle_A example_env 60
       (DeleteNote (Some forged_token) (Some 3)) example_db))) = [2, 4]" by code_simp
  show ?thesis using b c d g h i j example_run_A by (simp add: e f)
qed

end
